theory Spec2Isabelle
  imports Complex_Main "HOL-Library.Multiset" "HOL-Library.Log_Nat"
begin

section \<open>The relational store\<close>

text \<open>
  The server keeps its state in two tables, \<open>devices\<close> and \<open>device_logs\<close>, created by
  \<open>getDevicesTableSQL\<close> and \<open>getDeviceLogsTableSQL\<close> of the \<open>Database\<close> class. A table is
  the list of its rows in insertion order. \<open>CURRENT_TIMESTAMP\<close> is an integer clock value
  handed to every statement by its caller.

  The storage engine and its driver are not part of the server. The statements below
  follow the SQL text of the controllers, executed on the connection that the \<open>Database\<close>
  class opens:
  \<^item> both engines enforce the \<open>UNIQUE\<close> constraint on \<open>devices.device_id\<close> and the
    \<open>NOT NULL\<close> columns;
  \<^item> the foreign key of \<open>device_logs.device_id\<close> with \<open>ON DELETE CASCADE\<close> is enforced by
    MySQL (InnoDB); \<open>initializeSQLite\<close> opens its connection without
    \<open>PRAGMA foreign_keys = ON\<close>, and SQLite then ignores the foreign key;
  \<^item> the MySQL schema alone declares \<open>updated_at ... ON UPDATE CURRENT_TIMESTAMP\<close>;
  \<^item> a request field that is absent is \<open>undefined\<close> in the parameter list: the SQLite
    driver binds it as \<open>NULL\<close>, the \<open>execute\<close> of the MySQL driver throws.
\<close>

type_synonym datetime = int

datatype db_type = MySQL | SQLite

record device =
  row_id :: nat
  device_id :: string
  model :: string
  manufacturer :: string
  os_version :: "string option"
  app_version :: "string option"
  first_seen :: datetime
  last_seen :: datetime
  is_active :: bool
  created_at :: datetime
  updated_at :: datetime

record device_log =
  log_row_id :: nat
  log_device_id :: string
  battery_level :: "int option"
  network_status :: "string option"
  latitude :: "real option"
  longitude :: "real option"
  local_ip :: "string option"
  public_ip :: "string option"
  timestamp :: int
  log_created_at :: datetime

record database =
  dbType :: db_type
  devices :: "device list"
  device_logs :: "device_log list"
  devices_seq :: nat
  device_logs_seq :: nat

datatype db_error =
    UniqueViolation | ForeignKeyViolation | NotNullViolation | InvalidArgument
  | UndefinedParameter | DatatypeMismatch | StorageFailure

text \<open>Whether the driver accepts a parameter list, given for each parameter whether it is
  defined.\<close>

definition execute_binds :: "db_type \<Rightarrow> bool list \<Rightarrow> bool" where
  "execute_binds ty defined \<longleftrightarrow> ty = SQLite \<or> list_all (\<lambda>p. p) defined"

text \<open>\<open>SELECT ... FROM devices WHERE device_id = ?\<close> through \<open>database.get\<close>: the first
  matching row, or nothing. A \<open>NULL\<close> parameter matches no row.\<close>

definition select_device :: "string option \<Rightarrow> database \<Rightarrow> device option" where
  "select_device d db = find (\<lambda>r. Some (device_id r) = d) (devices db)"

text \<open>\<open>INSERT INTO devices (device_id, model, manufacturer, os_version, app_version)\<close>:
  every other column takes its declared default.\<close>

definition insert_device ::
  "datetime \<Rightarrow> string option \<Rightarrow> string option \<Rightarrow> string option \<Rightarrow> string option \<Rightarrow>
   string option \<Rightarrow> database \<Rightarrow> db_error + database" where
  "insert_device t d m mf os app db =
     (if \<not> execute_binds (dbType db)
             [d \<noteq> None, m \<noteq> None, mf \<noteq> None, os \<noteq> None, app \<noteq> None]
      then Inl UndefinedParameter
      else
       (case d of None \<Rightarrow> Inl NotNullViolation | Some d' \<Rightarrow>
         (case m of None \<Rightarrow> Inl NotNullViolation | Some m' \<Rightarrow>
           (case mf of None \<Rightarrow> Inl NotNullViolation | Some mf' \<Rightarrow>
              if select_device d db \<noteq> None then Inl UniqueViolation
              else Inr (db\<lparr>devices := devices db @
                          [\<lparr>row_id = Suc (devices_seq db), device_id = d', model = m',
                            manufacturer = mf', os_version = os, app_version = app,
                            first_seen = t, last_seen = t, is_active = True,
                            created_at = t, updated_at = t\<rparr>],
                        devices_seq := Suc (devices_seq db)\<rparr>)))))"

text \<open>The MySQL schema declares \<open>updated_at\<close> with \<open>ON UPDATE CURRENT_TIMESTAMP\<close>: the
  column is set to the clock when an \<open>UPDATE\<close> changes the value of another column of the
  row. (\<open>last_seen\<close> carries the same clause, but every \<open>UPDATE\<close> of the server assigns it
  explicitly.) The SQLite schema has no such clause.\<close>

definition on_update :: "db_type \<Rightarrow> datetime \<Rightarrow> device \<Rightarrow> device \<Rightarrow> device" where
  "on_update ty t old new =
     (case ty of
        MySQL \<Rightarrow> if new \<noteq> old then new\<lparr>updated_at := t\<rparr> else new
      | SQLite \<Rightarrow> new)"

text \<open>\<open>UPDATE devices SET ... WHERE device_id = ?\<close>, the assignments given as a function
  on the row.\<close>

definition update_devices ::
  "datetime \<Rightarrow> (device \<Rightarrow> device) \<Rightarrow> string option \<Rightarrow> database \<Rightarrow> database" where
  "update_devices t assign d db =
     db\<lparr>devices := map (\<lambda>r. if Some (device_id r) = d
                              then on_update (dbType db) t r (assign r) else r)
                        (devices db)\<rparr>"

text \<open>The \<open>UPDATE\<close> of \<open>registerDevice\<close>: \<open>SET model = ?, manufacturer = ?, os_version = ?,
  app_version = ?, last_seen = CURRENT_TIMESTAMP, is_active = 1\<close>.\<close>

definition update_device_registration ::
  "datetime \<Rightarrow> string option \<Rightarrow> string option \<Rightarrow> string option \<Rightarrow> string option \<Rightarrow>
   string option \<Rightarrow> database \<Rightarrow> db_error + database" where
  "update_device_registration t m mf os app d db =
     (if \<not> execute_binds (dbType db)
             [m \<noteq> None, mf \<noteq> None, os \<noteq> None, app \<noteq> None, d \<noteq> None]
      then Inl UndefinedParameter
      else
       (case m of
          None \<Rightarrow> (if select_device d db = None then Inr db else Inl NotNullViolation)
        | Some m' \<Rightarrow>
           (case mf of
              None \<Rightarrow> (if select_device d db = None then Inr db else Inl NotNullViolation)
            | Some mf' \<Rightarrow>
                Inr (update_devices t
                       (\<lambda>r. r\<lparr>model := m', manufacturer := mf', os_version := os,
                               app_version := app, last_seen := t, is_active := True\<rparr>) d db))))"

text \<open>The \<open>UPDATE\<close> of \<open>syncDeviceData\<close>: \<open>SET last_seen = CURRENT_TIMESTAMP,
  is_active = 1\<close>; and the one of the heartbeat route: \<open>SET last_seen = CURRENT_TIMESTAMP\<close>.\<close>

definition update_device_seen :: "datetime \<Rightarrow> string option \<Rightarrow> database \<Rightarrow> database" where
  "update_device_seen t d db =
     update_devices t (\<lambda>r. r\<lparr>last_seen := t, is_active := True\<rparr>) d db"

definition update_device_heartbeat :: "datetime \<Rightarrow> string option \<Rightarrow> database \<Rightarrow> database" where
  "update_device_heartbeat t d db = update_devices t (\<lambda>r. r\<lparr>last_seen := t\<rparr>) d db"

section \<open>JavaScript numbers\<close>

text \<open>
  \<open>page\<close> and \<open>limit\<close> arrive as decimal strings and the handlers compute with them as
  JavaScript numbers, that is IEEE doubles. Only integers occur here, so a number is an
  integer that a double can hold, an infinity or \<open>NaN\<close>.

  \<open>round_double\<close> rounds an integer to the nearest double, ties to the even mantissa of
  53 bits.
\<close>

datatype js_number = Num int | Infinity | NegInfinity | NaN

definition round_double :: "int \<Rightarrow> int" where
  "round_double n =
     (let a = nat \<bar>n\<bar>; k = floorlog 2 a
      in if k \<le> 53 then n
         else (let s = k - 53; q = a div 2 ^ s; r = a mod 2 ^ s; h = 2 ^ (s - 1);
                   q' = (if h < r \<or> (r = h \<and> odd q) then q + 1 else q)
               in sgn n * int (q' * 2 ^ s)))"

text \<open>The number that a decimal integer string denotes (\<open>ToNumber\<close>, and \<open>parseInt\<close> of
  such a string).\<close>

definition ToNumber :: "int \<Rightarrow> js_number" where
  "ToNumber n =
     (let r = round_double n
      in if 2 ^ 1024 \<le> r then Infinity else if r \<le> - (2 ^ 1024) then NegInfinity
         else Num r)"

text \<open>\<open>x - 1\<close> and \<open>x * y\<close>.\<close>

fun js_minus_one :: "js_number \<Rightarrow> js_number" where
  "js_minus_one (Num a) = Num (round_double (a - 1))"
| "js_minus_one x = x"

fun js_times :: "js_number \<Rightarrow> js_number \<Rightarrow> js_number" where
  "js_times (Num a) (Num b) = ToNumber (a * b)"
| "js_times NaN y = NaN"
| "js_times x NaN = NaN"
| "js_times (Num a) Infinity = (if a = 0 then NaN else if 0 < a then Infinity else NegInfinity)"
| "js_times (Num a) NegInfinity = (if a = 0 then NaN else if 0 < a then NegInfinity else Infinity)"
| "js_times Infinity (Num b) = (if b = 0 then NaN else if 0 < b then Infinity else NegInfinity)"
| "js_times NegInfinity (Num b) = (if b = 0 then NaN else if 0 < b then NegInfinity else Infinity)"
| "js_times Infinity Infinity = Infinity"
| "js_times NegInfinity NegInfinity = Infinity"
| "js_times Infinity NegInfinity = NegInfinity"
| "js_times NegInfinity Infinity = NegInfinity"

text \<open>
  \<open>parseInt\<close> of a number first prints it. From \<open>1e21\<close> on a number is printed with an
  exponent, in the shortest decimal that reads back as the same double, and \<open>parseInt\<close>
  stops at the first character that is not a digit: only the leading digit is left.
  \<open>shortest_decimal j lo hi incl\<close> is a decimal with the fewest significant digits in the
  rounding interval of the double, from \<open>lo\<close> to \<open>hi\<close>, the ends included when the
  mantissa is even.
\<close>

fun shortest_decimal :: "nat \<Rightarrow> nat \<Rightarrow> nat \<Rightarrow> bool \<Rightarrow> nat" where
  "shortest_decimal 0 lo hi incl = (if incl then lo else lo + 1)"
| "shortest_decimal (Suc j) lo hi incl =
     (let p = 10 ^ Suc j;
          c0 = ((lo + p - 1) div p) * p;
          c = (if \<not> incl \<and> c0 = lo then c0 + p else c0)
      in if (if incl then c \<le> hi else c < hi) then c else shortest_decimal j lo hi incl)"

definition leading_digit :: "nat \<Rightarrow> nat" where
  "leading_digit x =
     (let s = floorlog 2 x - 53; ulp = 2 ^ s; m = x div ulp;
          lo = x - (if m = 2 ^ 52 then ulp div 4 else ulp div 2);
          hi = x + ulp div 2;
          c = shortest_decimal (floorlog 10 hi) lo hi (even m)
      in c div 10 ^ (floorlog 10 c - 1))"

definition parseInt :: "js_number \<Rightarrow> js_number" where
  "parseInt x =
     (case x of
        Num a \<Rightarrow> if \<bar>a\<bar> < 10 ^ 21 then Num a else Num (sgn a * int (leading_digit (nat \<bar>a\<bar>)))
      | _ \<Rightarrow> NaN)"

section \<open>Requests, responses and the environment of a handler\<close>

text \<open>A handler runs its statements in order, each one awaited. The environment gives the
  clock of the store, the value of \<open>Date.now()\<close>, and for each statement of the handler
  (numbered from 0 in the order they are issued) whether the storage engine rejects it,
  which the handler's \<open>catch\<close> turns into a 500 response. A statement whose parameters
  the driver refuses is a rejected statement too; for the two writes of \<open>registerDevice\<close>
  that case is spelled out in the statements themselves (\<open>execute_binds\<close>), for the other
  handlers it is one of the rejections that the environment decides.

  An \<open>ORDER BY\<close> of the server names one column and no tie-breaker, so the order of rows
  with equal keys is the engine's choice (it depends on the access path: with the index on
  \<open>last_seen\<close> it is not the insertion order). The environment gives that choice as the
  order in which the engine visits the rows it sorts, \<open>device_scan\<close> and \<open>log_scan\<close>.

  In a \<open>healthy\<close> environment no statement is rejected and rows are visited in insertion
  order; its clock counts seconds and \<open>Date.now()\<close> milliseconds.\<close>

record env =
  now :: datetime
  date_now :: int
  fails :: "nat \<Rightarrow> bool"
  device_scan :: "device list \<Rightarrow> device list"
  log_scan :: "device_log list \<Rightarrow> device_log list"

definition healthy :: "datetime \<Rightarrow> env" where
  "healthy t =
     \<lparr>now = t, date_now = 1000 * t, fails = (\<lambda>k. False),
      device_scan = (\<lambda>rows. rows), log_scan = (\<lambda>rows. rows)\<rparr>"

definition await :: "env \<Rightarrow> nat \<Rightarrow> (db_error + 'a) \<Rightarrow> db_error + 'a" where
  "await e k r = (if fails e k then Inl StorageFailure else r)"

record pagination =
  page :: js_number
  limit :: js_number
  total :: nat
  pages :: "int option"

datatype body_data =
    NoData
  | RegisterData "string option" string
  | SyncData "string option" int string
  | DevicesData "(device \<times> device_log option) list" pagination
  | DetailData device "device_log list" pagination
  | HeartbeatData int

record response =
  http_status :: nat
  success :: bool
  message :: string
  error_code :: "string option"
  data :: body_data

definition validation_failed :: response where
  "validation_failed =
     \<lparr>http_status = 400, success = False, message = ''Validation failed'',
      error_code = None, data = NoData\<rparr>"

definition internal_error :: "string option \<Rightarrow> response" where
  "internal_error code =
     \<lparr>http_status = 500, success = False, message = ''Internal server error'',
      error_code = code, data = NoData\<rparr>"

definition not_found :: "string \<Rightarrow> string option \<Rightarrow> response" where
  "not_found msg code =
     \<lparr>http_status = 404, success = False, message = msg, error_code = code, data = NoData\<rparr>"

definition ok :: "string \<Rightarrow> body_data \<Rightarrow> response" where
  "ok msg d = \<lparr>http_status = 200, success = True, message = msg, error_code = None, data = d\<rparr>"

text \<open>express-validator's \<open>notEmpty\<close>: the field is present and not the empty string.\<close>

definition notEmpty :: "string option \<Rightarrow> bool" where
  "notEmpty v = (case v of None \<Rightarrow> False | Some s \<Rightarrow> s \<noteq> [])"

section \<open>registerDevice\<close>

record register_body =
  reg_device_id :: "string option"
  reg_model :: "string option"
  reg_manufacturer :: "string option"
  reg_os_version :: "string option"
  reg_app_version :: "string option"

definition deviceRegistrationValidation :: "register_body \<Rightarrow> bool" where
  "deviceRegistrationValidation b \<longleftrightarrow>
     notEmpty (reg_device_id b) \<and> notEmpty (reg_model b) \<and> notEmpty (reg_manufacturer b)"

text \<open>The handler up to its first \<open>await\<close>: validation and the lookup of the existing row.
  \<open>Inl\<close> is an early response, \<open>Inr\<close> the value of \<open>existingDevice\<close>.\<close>

definition register_lookup :: "env \<Rightarrow> register_body \<Rightarrow> database \<Rightarrow> response + device option" where
  "register_lookup e b db =
     (if \<not> deviceRegistrationValidation b then Inl validation_failed
      else
       (case await e 0 (Inr (select_device (reg_device_id b) db)) of
          Inl err \<Rightarrow> Inl (internal_error (Some ''REGISTRATION_FAILED''))
        | Inr existingDevice \<Rightarrow> Inr existingDevice))"

text \<open>The rest of the handler: the \<open>UPDATE\<close> when a row was found, the \<open>INSERT\<close> otherwise.\<close>

definition register_write ::
  "env \<Rightarrow> register_body \<Rightarrow> device option \<Rightarrow> database \<Rightarrow> response \<times> database" where
  "register_write e b existingDevice db =
     (if existingDevice \<noteq> None then
        (case await e 1 (update_device_registration (now e) (reg_model b) (reg_manufacturer b)
                           (reg_os_version b) (reg_app_version b) (reg_device_id b) db) of
           Inl err \<Rightarrow> (internal_error (Some ''REGISTRATION_FAILED''), db)
         | Inr db' \<Rightarrow>
             (ok ''Device updated successfully''
                (RegisterData (reg_device_id b) ''updated''), db'))
      else
        (case await e 1 (insert_device (now e) (reg_device_id b) (reg_model b)
                           (reg_manufacturer b) (reg_os_version b) (reg_app_version b) db) of
           Inl err \<Rightarrow> (internal_error (Some ''REGISTRATION_FAILED''), db)
         | Inr db' \<Rightarrow>
             ((ok ''Device registered successfully''
                 (RegisterData (reg_device_id b) ''registered''))
                \<lparr>http_status := 201\<rparr>, db')))"

definition registerDevice :: "env \<Rightarrow> register_body \<Rightarrow> database \<Rightarrow> response \<times> database" where
  "registerDevice e b db =
     (case register_lookup e b db of
        Inl r \<Rightarrow> (r, db)
      | Inr existingDevice \<Rightarrow> register_write e b existingDevice db)"

section \<open>syncDeviceData\<close>

record sync_body =
  sync_device_id :: "string option"
  sync_battery_level :: "int option"
  sync_network_status :: "string option"
  sync_latitude :: "real option"
  sync_longitude :: "real option"
  sync_local_ip :: "string option"
  sync_public_ip :: "string option"
  sync_timestamp :: "int option"

definition optional_in :: "'a::linorder \<Rightarrow> 'a \<Rightarrow> 'a option \<Rightarrow> bool" where
  "optional_in lo hi v = (case v of None \<Rightarrow> True | Some x \<Rightarrow> lo \<le> x \<and> x \<le> hi)"

definition deviceSyncValidation :: "sync_body \<Rightarrow> bool" where
  "deviceSyncValidation b \<longleftrightarrow>
     notEmpty (sync_device_id b) \<and>
     optional_in 0 100 (sync_battery_level b) \<and>
     optional_in (- 90) 90 (sync_latitude b) \<and>
     optional_in (- 180) 180 (sync_longitude b) \<and>
     (case sync_timestamp b of None \<Rightarrow> False | Some ts \<Rightarrow> 0 \<le> ts)"

text \<open>\<open>INSERT INTO device_logs (device_id, battery_level, network_status, latitude,
  longitude, local_ip, public_ip, timestamp)\<close>; \<open>created_at\<close> takes its default. Where
  the foreign key is enforced it wants a row of \<open>devices\<close> with this \<open>device_id\<close>.\<close>

definition insert_device_log :: "datetime \<Rightarrow> sync_body \<Rightarrow> database \<Rightarrow> db_error + database" where
  "insert_device_log t b db =
     (case sync_device_id b of None \<Rightarrow> Inl NotNullViolation | Some d \<Rightarrow>
       (case sync_timestamp b of None \<Rightarrow> Inl NotNullViolation | Some ts \<Rightarrow>
          if dbType db = MySQL \<and> select_device (Some d) db = None
          then Inl ForeignKeyViolation
          else Inr (db\<lparr>device_logs := device_logs db @
                      [\<lparr>log_row_id = Suc (device_logs_seq db), log_device_id = d,
                        battery_level = sync_battery_level b,
                        network_status = sync_network_status b,
                        latitude = sync_latitude b, longitude = sync_longitude b,
                        local_ip = sync_local_ip b, public_ip = sync_public_ip b,
                        timestamp = ts, log_created_at = t\<rparr>],
                    device_logs_seq := Suc (device_logs_seq db)\<rparr>)))"

definition syncDeviceData :: "env \<Rightarrow> sync_body \<Rightarrow> database \<Rightarrow> response \<times> database" where
  "syncDeviceData e b db =
     (if \<not> deviceSyncValidation b then (validation_failed, db)
      else
       (case await e 0 (Inr (select_device (sync_device_id b) db)) of
          Inl err \<Rightarrow> (internal_error (Some ''SYNC_FAILED''), db)
        | Inr dev \<Rightarrow>
            if dev = None then
              (not_found ''Device not found. Please register first.''
                 (Some ''DEVICE_NOT_FOUND''), db)
            else
             (case await e 1 (insert_device_log (now e) b db) of
                Inl err \<Rightarrow> (internal_error (Some ''SYNC_FAILED''), db)
              | Inr db1 \<Rightarrow>
                 (case await e 2 (Inr (update_device_seen (now e) (sync_device_id b) db1)) of
                    Inl err \<Rightarrow> (internal_error (Some ''SYNC_FAILED''), db1)
                  | Inr db2 \<Rightarrow>
                      (ok ''Data synced successfully''
                         (SyncData (sync_device_id b) (date_now e) ''completed''), db2)))))"

section \<open>The heartbeat route\<close>

text \<open>The route lists a \<open>notEmpty\<close> check for \<open>device_id\<close> but its handler never reads the
  validation result, so every body reaches the \<open>UPDATE\<close>.\<close>

definition heartbeat :: "env \<Rightarrow> string option \<Rightarrow> database \<Rightarrow> response \<times> database" where
  "heartbeat e d db =
     (case await e 0 (Inr (update_device_heartbeat (now e) d db)) of
        Inl err \<Rightarrow> (internal_error None, db)
      | Inr db' \<Rightarrow> (ok ''Heartbeat received'' (HeartbeatData (date_now e)), db'))"

section \<open>deleteDevice\<close>

text \<open>\<open>DELETE FROM devices WHERE device_id = ?\<close>. On MySQL the declared
  \<open>ON DELETE CASCADE\<close> removes, in the same statement, the rows of \<open>device_logs\<close> that
  reference a deleted row. On the SQLite connection the foreign key is not enforced and
  the statement touches \<open>devices\<close> only.\<close>

definition delete_device :: "string \<Rightarrow> database \<Rightarrow> database" where
  "delete_device d db =
     (let gone = filter (\<lambda>r. device_id r = d) (devices db)
      in db\<lparr>devices := filter (\<lambda>r. device_id r \<noteq> d) (devices db),
            device_logs :=
              (case dbType db of
                 MySQL \<Rightarrow> filter (\<lambda>l. log_device_id l \<notin> device_id ` set gone)
                            (device_logs db)
               | SQLite \<Rightarrow> device_logs db)\<rparr>)"

definition deleteDevice :: "env \<Rightarrow> string \<Rightarrow> database \<Rightarrow> response \<times> database" where
  "deleteDevice e deviceId db =
     (case await e 0 (Inr (select_device (Some deviceId) db)) of
        Inl err \<Rightarrow> (internal_error None, db)
      | Inr dev \<Rightarrow>
          if dev = None then (not_found ''Device not found'' None, db)
          else
           (case await e 1 (Inr (delete_device deviceId db)) of
              Inl err \<Rightarrow> (internal_error None, db)
            | Inr db' \<Rightarrow> (ok ''Device deleted successfully'' NoData, db')))"

section \<open>Queries\<close>

text \<open>
  \<open>LIMIT ? OFFSET ?\<close> with two numbers bound. The SQLite driver binds a number outside
  the 32-bit integers as a \<open>REAL\<close>, and SQLite takes a \<open>REAL\<close> for a limit only when it
  converts to a 64-bit integer strictly inside the range; anything else (also \<open>NaN\<close>,
  bound as \<open>NULL\<close>) is a datatype mismatch. SQLite reads a negative limit as no limit and
  a negative offset as 0. MySQL takes unsigned 64-bit integers and rejects the rest.
\<close>

definition bind_integer :: "db_type \<Rightarrow> js_number \<Rightarrow> db_error + int" where
  "bind_integer ty x =
     (case x of
        Num a \<Rightarrow>
          (case ty of
             SQLite \<Rightarrow> if - (2 ^ 63) < a \<and> a < 2 ^ 63 then Inr a else Inl DatatypeMismatch
           | MySQL \<Rightarrow> if 0 \<le> a \<and> a < 2 ^ 64 then Inr a else Inl InvalidArgument)
      | _ \<Rightarrow> (case ty of SQLite \<Rightarrow> Inl DatatypeMismatch | MySQL \<Rightarrow> Inl InvalidArgument))"

definition sql_limit_offset ::
  "db_type \<Rightarrow> js_number \<Rightarrow> js_number \<Rightarrow> 'a list \<Rightarrow> db_error + 'a list" where
  "sql_limit_offset ty lmt off xs =
     (case bind_integer ty lmt of
        Inl err \<Rightarrow> Inl err
      | Inr l \<Rightarrow>
         (case bind_integer ty off of
            Inl err \<Rightarrow> Inl err
          | Inr k \<Rightarrow> Inr ((if l < 0 then (\<lambda>ys. ys) else take (nat l)) (drop (nat k) xs))))"

text \<open>\<open>Math.ceil(total / limit)\<close>. The quotient of a row count (below \<open>2 ^ 53\<close>) by an
  integer is either an integer or too far above the integer below it for the rounding of
  the division to reach that integer, so the ceiling is that of the exact quotient. A
  zero limit gives a number that is not finite, which JSON renders as \<open>null\<close>; an
  infinite limit gives 0.\<close>

definition math_ceil_div :: "nat \<Rightarrow> js_number \<Rightarrow> int option" where
  "math_ceil_div n lmt =
     (case lmt of
        Num l \<Rightarrow> if l = 0 then None else Some \<lceil>real n / real_of_int l\<rceil>
      | Infinity \<Rightarrow> Some 0
      | NegInfinity \<Rightarrow> Some 0
      | NaN \<Rightarrow> None)"

text \<open>The SQL \<open>LIKE\<close> operator: \<open>%\<close> stands for any run of characters, \<open>_\<close> for any one
  character, and ASCII letters match without regard to case.\<close>

definition ascii_lower :: "char \<Rightarrow> char" where
  "ascii_lower c =
     (if 65 \<le> (of_char c :: nat) \<and> (of_char c :: nat) \<le> 90
      then char_of (of_char c + 32 :: nat) else c)"

fun like :: "string \<Rightarrow> string \<Rightarrow> bool" where
  "like [] [] = True"
| "like [] (c # cs) = False"
| "like (p # ps) [] = (p = CHR ''%'' \<and> like ps [])"
| "like (p # ps) (c # cs) =
     (if p = CHR ''%'' then like ps (c # cs) \<or> like (p # ps) cs
      else (p = CHR ''_'' \<or> ascii_lower p = ascii_lower c) \<and> like ps cs)"

text \<open>The query string of \<open>getAllDevices\<close>: \<open>page\<close> and \<open>limit\<close> as the integers their
  decimal strings denote.\<close>

record devices_query =
  q_page :: "int option"
  q_limit :: "int option"
  q_search :: "string option"
  q_status :: "string option"

definition or_default :: "'a \<Rightarrow> 'a option \<Rightarrow> 'a" where
  "or_default d v = (case v of None \<Rightarrow> d | Some x \<Rightarrow> x)"

text \<open>The \<open>WHERE\<close> clause built by \<open>getAllDevices\<close>: the search condition when \<open>search\<close> is
  not empty, the status condition when \<open>status\<close> is not \<open>all\<close>.\<close>

definition whereClause :: "string \<Rightarrow> string \<Rightarrow> device \<Rightarrow> bool" where
  "whereClause search status r \<longleftrightarrow>
     (search = [] \<or>
      like (''%'' @ search @ ''%'') (device_id r) \<or>
      like (''%'' @ search @ ''%'') (model r) \<or>
      like (''%'' @ search @ ''%'') (manufacturer r)) \<and>
     (status = ''all'' \<or> (if status = ''active'' then is_active r else \<not> is_active r))"

text \<open>\<open>ORDER BY last_seen DESC\<close> and \<open>ORDER BY timestamp DESC\<close>: the rows sorted by the
  key, rows with equal keys in the order in which the engine visits them.\<close>

definition order_by_last_seen_desc :: "env \<Rightarrow> device list \<Rightarrow> device list" where
  "order_by_last_seen_desc e rs = sort_key (\<lambda>r. - last_seen r) (device_scan e rs)"

definition order_by_timestamp_desc :: "env \<Rightarrow> device_log list \<Rightarrow> device_log list" where
  "order_by_timestamp_desc e ls = sort_key (\<lambda>l. - timestamp l) (log_scan e ls)"

definition logs_of :: "string \<Rightarrow> database \<Rightarrow> device_log list" where
  "logs_of d db = filter (\<lambda>l. log_device_id l = d) (device_logs db)"

definition latest_log :: "env \<Rightarrow> string \<Rightarrow> database \<Rightarrow> device_log option" where
  "latest_log e d db =
     (case order_by_timestamp_desc e (logs_of d db) of [] \<Rightarrow> None | l # ls \<Rightarrow> Some l)"

definition getAllDevices :: "env \<Rightarrow> devices_query \<Rightarrow> database \<Rightarrow> response" where
  "getAllDevices e q db =
     (let pg = ToNumber (or_default 1 (q_page q));
          lim = ToNumber (or_default 50 (q_limit q));
          search = or_default [] (q_search q);
          status = or_default ''all'' (q_status q);
          offset = js_times (js_minus_one pg) lim
      in case await e 0 (Inr (length (filter (whereClause search status) (devices db)))) of
           Inl err \<Rightarrow> internal_error None
         | Inr tot \<Rightarrow>
           (case await e 1 (sql_limit_offset (dbType db) lim (parseInt offset)
                              (order_by_last_seen_desc e
                                 (filter (whereClause search status) (devices db)))) of
              Inl err \<Rightarrow> internal_error None
            | Inr devs \<Rightarrow>
                if list_ex (\<lambda>i. fails e (2 + i)) [0..<length devs] then internal_error None
                else ok [] (DevicesData
                              (map (\<lambda>r. (r, latest_log e (device_id r) db)) devs)
                              \<lparr>page = pg, limit = lim, total = tot,
                               pages = math_ceil_div tot lim\<rparr>)))"

record detail_query =
  d_page :: "int option"
  d_limit :: "int option"

definition getDeviceDetails :: "env \<Rightarrow> string \<Rightarrow> detail_query \<Rightarrow> database \<Rightarrow> response" where
  "getDeviceDetails e deviceId q db =
     (case await e 0 (Inr (select_device (Some deviceId) db)) of
        Inl err \<Rightarrow> internal_error None
      | Inr None \<Rightarrow> not_found ''Device not found'' None
      | Inr (Some dev) \<Rightarrow>
          (let pg = ToNumber (or_default 1 (d_page q));
               lim = ToNumber (or_default 100 (d_limit q));
               offset = js_times (js_minus_one pg) lim
           in case await e 1 (sql_limit_offset (dbType db) lim (parseInt offset)
                                (order_by_timestamp_desc e (logs_of deviceId db))) of
                Inl err \<Rightarrow> internal_error None
              | Inr logs \<Rightarrow>
                  (case await e 2 (Inr (length (logs_of deviceId db))) of
                     Inl err \<Rightarrow> internal_error None
                   | Inr logCount \<Rightarrow>
                       ok [] (DetailData dev logs
                                \<lparr>page = pg, limit = lim, total = logCount,
                                 pages = math_ceil_div logCount lim\<rparr>))))"

section \<open>Derived notions used in the statements\<close>

text \<open>The foreign key of \<open>device_logs\<close>: every log row references a row of \<open>devices\<close>.\<close>

definition referential_integrity :: "database \<Rightarrow> bool" where
  "referential_integrity db \<longleftrightarrow>
     list_all (\<lambda>l. select_device (Some (log_device_id l)) db \<noteq> None) (device_logs db)"

definition rows_of :: "string \<Rightarrow> database \<Rightarrow> device list" where
  "rows_of d db = filter (\<lambda>r. device_id r = d) (devices db)"

definition last_seen_of :: "string \<Rightarrow> database \<Rightarrow> datetime option" where
  "last_seen_of d db = map_option last_seen (select_device (Some d) db)"

definition returned_devices :: "response \<Rightarrow> device list" where
  "returned_devices r = (case data r of DevicesData ds pg \<Rightarrow> map fst ds | _ \<Rightarrow> [])"

definition returned_pagination :: "response \<Rightarrow> pagination option" where
  "returned_pagination r = (case data r of DevicesData ds pg \<Rightarrow> Some pg | _ \<Rightarrow> None)"

text \<open>The driver accepts the parameters of the write of \<open>registerDevice\<close> for this body:
  always on SQLite, on MySQL when \<open>os_version\<close> and \<open>app_version\<close> are both present.\<close>

definition binds :: "database \<Rightarrow> register_body \<Rightarrow> bool" where
  "binds db b \<longleftrightarrow>
     dbType db = SQLite \<or> (reg_os_version b \<noteq> None \<and> reg_app_version b \<noteq> None)"

text \<open>What the \<open>UPDATE\<close> of a repeated registration does to a row of the registered device.\<close>

definition reregistered :: "register_body \<Rightarrow> datetime \<Rightarrow> device \<Rightarrow> device \<Rightarrow> bool" where
  "reregistered b t old new \<longleftrightarrow>
     Some (model new) = reg_model b \<and> Some (manufacturer new) = reg_manufacturer b \<and>
     os_version new = reg_os_version b \<and> app_version new = reg_app_version b \<and>
     last_seen new = t \<and> is_active new \<and>
     first_seen new = first_seen old \<and> device_id new = device_id old \<and>
     row_id new = row_id old \<and> created_at new = created_at old"

text \<open>The row that the \<open>INSERT\<close> of \<open>syncDeviceData\<close> appends.\<close>

definition new_log :: "datetime \<Rightarrow> sync_body \<Rightarrow> string \<Rightarrow> int \<Rightarrow> database \<Rightarrow> device_log" where
  "new_log t b d ts db =
     \<lparr>log_row_id = Suc (device_logs_seq db), log_device_id = d,
      battery_level = sync_battery_level b, network_status = sync_network_status b,
      latitude = sync_latitude b, longitude = sync_longitude b,
      local_ip = sync_local_ip b, public_ip = sync_public_ip b,
      timestamp = ts, log_created_at = t\<rparr>"

subsection \<open>A run of sync calls\<close>

text \<open>Each call comes with its own environment: its time, and what the storage engine
  does to its statements.\<close>

fun sync_all :: "(env \<times> sync_body) list \<Rightarrow> database \<Rightarrow> response list \<times> database" where
  "sync_all [] db = ([], db)"
| "sync_all ((e, b) # calls) db =
     (let (r, db1) = syncDeviceData e b db;
          (rs, db2) = sync_all calls db1
      in (r # rs, db2))"

text \<open>The receipt times of the calls for device \<open>d\<close> that were answered with 200, in order.\<close>

definition successful_syncs ::
  "string \<Rightarrow> (env \<times> sync_body) list \<Rightarrow> response list \<Rightarrow> datetime list" where
  "successful_syncs d calls rs =
     map (\<lambda>(c, r). now (fst c))
       (filter (\<lambda>(c, r). sync_device_id (snd c) = Some d \<and> http_status r = 200) (zip calls rs))"

text \<open>The valid calls for device \<open>d\<close> whose lookup and \<open>INSERT\<close> were executed and whose
  \<open>UPDATE\<close> was rejected: they are answered with 500 after their log row was written.\<close>

definition torn_syncs :: "string \<Rightarrow> (env \<times> sync_body) list \<Rightarrow> (env \<times> sync_body) list" where
  "torn_syncs d calls =
     filter (\<lambda>(e, b). sync_device_id b = Some d \<and> deviceSyncValidation b \<and>
                       \<not> fails e 0 \<and> \<not> fails e 1 \<and> fails e 2) calls"

subsection \<open>Two registrations in flight\<close>

text \<open>\<open>registerDevice\<close> gives up control at each of its two awaited statements, so two
  requests in flight interleave at these points. A task is a request before its lookup,
  between lookup and write, or answered.\<close>

datatype reg_task =
    Pending env register_body
  | Looked env register_body "device option"
  | Answered response

fun reg_step :: "reg_task \<Rightarrow> database \<Rightarrow> reg_task \<times> database" where
  "reg_step (Pending e b) db =
     (case register_lookup e b db of
        Inl r \<Rightarrow> (Answered r, db)
      | Inr existingDevice \<Rightarrow> (Looked e b existingDevice, db))"
| "reg_step (Looked e b existingDevice) db =
     (let (r, db') = register_write e b existingDevice db in (Answered r, db'))"
| "reg_step (Answered r) db = (Answered r, db)"

text \<open>A schedule says which of the two requests takes the next step: \<open>False\<close> the first,
  \<open>True\<close> the second.\<close>

fun run_schedule ::
  "bool list \<Rightarrow> reg_task \<Rightarrow> reg_task \<Rightarrow> database \<Rightarrow> reg_task \<times> reg_task \<times> database" where
  "run_schedule [] a b db = (a, b, db)"
| "run_schedule (second # sched) a b db =
     (if second then (let (b', db') = reg_step b db in run_schedule sched a b' db')
      else (let (a', db') = reg_step a db in run_schedule sched a' b db'))"

definition interleaving :: "bool list \<Rightarrow> bool" where
  "interleaving sched \<longleftrightarrow>
     length (filter (\<lambda>x. x) sched) = 2 \<and> length (filter (\<lambda>x. \<not> x) sched) = 2"

definition is_registered :: "reg_task \<Rightarrow> bool" where
  "is_registered a \<longleftrightarrow>
     (case a of
        Answered r \<Rightarrow>
          http_status r = 201 \<and>
          (case data r of RegisterData d st \<Rightarrow> st = ''registered'' | _ \<Rightarrow> False)
      | _ \<Rightarrow> False)"

definition is_updated :: "reg_task \<Rightarrow> bool" where
  "is_updated a \<longleftrightarrow>
     (case a of
        Answered r \<Rightarrow>
          http_status r = 200 \<and>
          (case data r of RegisterData d st \<Rightarrow> st = ''updated'' | _ \<Rightarrow> False)
      | _ \<Rightarrow> False)"

text \<open>The answer of the handler's \<open>catch\<close> block.\<close>

definition rejected :: response where
  "rejected = internal_error (Some ''REGISTRATION_FAILED'')"

definition is_rejected :: "reg_task \<Rightarrow> bool" where
  "is_rejected a \<longleftrightarrow>
     (case a of Answered r \<Rightarrow> r = rejected | _ \<Rightarrow> False)"

subsection \<open>Example inputs\<close>

definition empty_db :: "db_type \<Rightarrow> database" where
  "empty_db ty =
     \<lparr>dbType = ty, devices = [], device_logs = [], devices_seq = 0, device_logs_seq = 0\<rparr>"

definition pixel :: register_body where
  "pixel = \<lparr>reg_device_id = Some ''dev-1'', reg_model = Some ''Pixel 6'',
            reg_manufacturer = Some ''Google'', reg_os_version = Some ''Android 13'',
            reg_app_version = Some ''1.0''\<rparr>"

definition pixel_bare :: register_body where
  "pixel_bare = \<lparr>reg_device_id = Some ''dev-1'', reg_model = Some ''Pixel 6'',
                 reg_manufacturer = Some ''Google'', reg_os_version = None,
                 reg_app_version = None\<rparr>"

definition galaxy :: register_body where
  "galaxy = \<lparr>reg_device_id = Some ''dev-2'', reg_model = Some ''Galaxy S21'',
             reg_manufacturer = Some ''Samsung'', reg_os_version = Some ''Android 12'',
             reg_app_version = Some ''1.0''\<rparr>"

definition sync_of :: "string \<Rightarrow> int option \<Rightarrow> sync_body" where
  "sync_of d ts =
     \<lparr>sync_device_id = Some d, sync_battery_level = Some 85,
      sync_network_status = Some ''wifi'', sync_latitude = Some 52, sync_longitude = Some 13,
      sync_local_ip = Some ''10.0.0.2'', sync_public_ip = Some ''203.0.113.7'',
      sync_timestamp = ts\<rparr>"

text \<open>A store with \<open>dev-1\<close> registered at time 5.\<close>

definition pixel_db :: "db_type \<Rightarrow> database" where
  "pixel_db ty = snd (registerDevice (healthy 5) pixel (empty_db ty))"

text \<open>The same store after one sync call of \<open>dev-1\<close> at time 7.\<close>

definition synced_db :: "db_type \<Rightarrow> database" where
  "synced_db ty = snd (syncDeviceData (healthy 7) (sync_of ''dev-1'' (Some 1000)) (pixel_db ty))"

text \<open>A store with \<open>dev-1\<close> registered at time 5 and \<open>dev-2\<close> at time 6.\<close>

definition two_device_db :: "db_type \<Rightarrow> database" where
  "two_device_db ty = snd (registerDevice (healthy 6) galaxy (pixel_db ty))"

text \<open>Environments in which the second, or the third, statement of the handler is
  rejected, and one in which the engine visits rows in reverse insertion order.\<close>

definition second_fails :: "datetime \<Rightarrow> env" where
  "second_fails t = (healthy t)\<lparr>fails := (\<lambda>k. k = 1)\<rparr>"

definition third_fails :: "datetime \<Rightarrow> env" where
  "third_fails t = (healthy t)\<lparr>fails := (\<lambda>k. k = 2)\<rparr>"

definition reversed :: "datetime \<Rightarrow> env" where
  "reversed t = (healthy t)\<lparr>device_scan := rev, log_scan := rev\<rparr>"

text \<open>Four sync calls: two good ones for \<open>dev-1\<close>, one for an unknown device and one without
  a \<open>timestamp\<close>.\<close>

definition example_calls :: "(env \<times> sync_body) list" where
  "example_calls =
     [(healthy 7, sync_of ''dev-1'' (Some 1000)), (healthy 8, sync_of ''dev-x'' (Some 1001)),
      (healthy 9, sync_of ''dev-1'' None), (healthy 10, sync_of ''dev-1'' (Some 900))]"

text \<open>Two sync calls for \<open>dev-1\<close>: a good one, and one whose \<open>UPDATE\<close> is rejected.\<close>

definition torn_calls :: "(env \<times> sync_body) list" where
  "torn_calls =
     [(healthy 7, sync_of ''dev-1'' (Some 1000)), (third_fails 8, sync_of ''dev-1'' (Some 1001))]"

definition all_devices :: "int \<Rightarrow> int \<Rightarrow> string \<Rightarrow> devices_query" where
  "all_devices p l st = \<lparr>q_page = Some p, q_limit = Some l, q_search = None, q_status = Some st\<rparr>"

section \<open>Basic facts about the store\<close>

lemma select_device_None_iff:
  "select_device (Some d) db = None \<longleftrightarrow> d \<notin> device_id ` set (devices db)"
  by (auto simp: select_device_def find_None_iff)

lemma select_device_SomeD:
  "select_device (Some d) db = Some r \<Longrightarrow> r \<in> set (devices db) \<and> device_id r = d"
  by (auto simp: select_device_def find_Some_iff)

lemma notEmpty_SomeD: "notEmpty v \<Longrightarrow> \<exists>s. v = Some s \<and> s \<noteq> []"
  by (cases v) (auto simp: notEmpty_def)

lemma await_healthy [simp]: "await (healthy t) k r = r"
  by (simp add: await_def healthy_def)

lemma now_healthy [simp]: "now (healthy t) = t"
  by (simp add: healthy_def)

lemma fails_healthy [simp]: "fails (healthy t) k = False"
  by (simp add: healthy_def)

lemma date_now_healthy [simp]: "date_now (healthy t) = 1000 * t"
  by (simp add: healthy_def)

lemma scan_healthy [simp]:
  "device_scan (healthy t) rows = rows" "log_scan (healthy t) logs = logs"
  by (simp_all add: healthy_def)

lemma registerDevice_unbound:
  assumes "deviceRegistrationValidation b" and "\<not> binds db b"
  shows "registerDevice (healthy t) b db = (internal_error (Some ''REGISTRATION_FAILED''), db)"
  using assms
  by (auto simp: registerDevice_def register_lookup_def register_write_def insert_device_def
      update_device_registration_def execute_binds_def binds_def)

lemma registerDevice_new:
  assumes "deviceRegistrationValidation b" and "select_device (reg_device_id b) db = None"
    and "binds db b"
  shows "registerDevice (healthy t) b db =
           ((ok ''Device registered successfully''
               (RegisterData (reg_device_id b) ''registered''))\<lparr>http_status := 201\<rparr>,
            db\<lparr>devices := devices db @
                 [\<lparr>row_id = Suc (devices_seq db), device_id = the (reg_device_id b),
                   model = the (reg_model b), manufacturer = the (reg_manufacturer b),
                   os_version = reg_os_version b, app_version = reg_app_version b,
                   first_seen = t, last_seen = t, is_active = True,
                   created_at = t, updated_at = t\<rparr>],
               devices_seq := Suc (devices_seq db)\<rparr>)"
proof -
  obtain d m mf where "reg_device_id b = Some d" "reg_model b = Some m"
    "reg_manufacturer b = Some mf"
    using assms(1) by (auto simp: deviceRegistrationValidation_def dest!: notEmpty_SomeD)
  then show ?thesis
    using assms
    by (auto simp: registerDevice_def register_lookup_def register_write_def insert_device_def
        execute_binds_def binds_def)
qed

lemma registerDevice_existing:
  assumes "deviceRegistrationValidation b" and "select_device (reg_device_id b) db \<noteq> None"
    and "binds db b"
  shows "registerDevice (healthy t) b db =
           (ok ''Device updated successfully'' (RegisterData (reg_device_id b) ''updated''),
            update_devices t
              (\<lambda>r. r\<lparr>model := the (reg_model b), manufacturer := the (reg_manufacturer b),
                      os_version := reg_os_version b, app_version := reg_app_version b,
                      last_seen := t, is_active := True\<rparr>) (reg_device_id b) db)"
proof -
  obtain d m mf where "reg_device_id b = Some d" "reg_model b = Some m"
    "reg_manufacturer b = Some mf"
    using assms(1) by (auto simp: deviceRegistrationValidation_def dest!: notEmpty_SomeD)
  then show ?thesis
    using assms
    by (auto simp: registerDevice_def register_lookup_def register_write_def
        update_device_registration_def execute_binds_def binds_def)
qed

lemma find_snoc:
  "find P (xs @ [y]) = (case find P xs of None \<Rightarrow> (if P y then Some y else None) | Some x \<Rightarrow> Some x)"
  by (induction xs) auto

lemma on_update_fields [simp]:
  "row_id (on_update ty t old new) = row_id new"
  "device_id (on_update ty t old new) = device_id new"
  "model (on_update ty t old new) = model new"
  "manufacturer (on_update ty t old new) = manufacturer new"
  "os_version (on_update ty t old new) = os_version new"
  "app_version (on_update ty t old new) = app_version new"
  "first_seen (on_update ty t old new) = first_seen new"
  "last_seen (on_update ty t old new) = last_seen new"
  "is_active (on_update ty t old new) = is_active new"
  "created_at (on_update ty t old new) = created_at new"
  by (cases ty; simp add: on_update_def)+

lemma reregistered_on_update:
  "reregistered b t old (on_update ty t' old new) = reregistered b t old new"
  by (cases ty) (simp_all add: on_update_def reregistered_def)

lemma find_map_device_id:
  fixes g :: "device \<Rightarrow> device"
  assumes "\<And>r. device_id (g r) = device_id r"
  shows "find (\<lambda>r. Some (device_id r) = d) (map g xs)
         = map_option g (find (\<lambda>r. Some (device_id r) = d) xs)"
  using assms by (induction xs) auto

lemma select_device_update_devices:
  assumes "\<And>r. device_id (f r) = device_id r"
  shows "select_device d (update_devices t f d' db) =
     map_option (\<lambda>r. if Some (device_id r) = d' then on_update (dbType db) t r (f r) else r)
       (select_device d db)"
  unfolding select_device_def update_devices_def
  using assms by (simp add: find_map_device_id)

lemma binds_update_devices [simp]: "binds (update_devices t f d db) b = binds db b"
  by (simp add: binds_def update_devices_def)

lemmas register_defs =
  registerDevice_def register_lookup_def register_write_def insert_device_def
  update_device_registration_def update_devices_def on_update_def select_device_def
  healthy_def await_def deviceRegistrationValidation_def notEmpty_def ok_def
  internal_error_def validation_failed_def not_found_def execute_binds_def binds_def

lemmas example_defs =
  empty_db_def pixel_def pixel_bare_def galaxy_def sync_of_def pixel_db_def second_fails_def
  third_fails_def reversed_def all_devices_def


section \<open>Registration\<close>

text \<open>
  Claim C1, as the code has it, for the registrations whose parameters the driver
  binds (\<open>binds\<close>). A valid registration (\<open>device_id\<close>, \<open>model\<close>,
  \<open>manufacturer\<close> present and not empty) of a \<open>device_id\<close> with no row appends exactly one
  row with \<open>first_seen = last_seen = now\<close> and \<open>is_active\<close> set, and answers 201 with status
  \<open>registered\<close>; every later valid registration of that \<open>device_id\<close> answers 200 with
  status \<open>updated\<close>, keeps \<open>first_seen\<close>, sets \<open>last_seen\<close> to its own time and leaves one
  row. A valid registration of a \<open>device_id\<close> that has a row answers 200 with status
  \<open>updated\<close>, writes \<open>model\<close>, \<open>manufacturer\<close>, \<open>os_version\<close>, \<open>app_version\<close> from the
  request, sets \<open>last_seen = now\<close> and \<open>is_active\<close>, keeps \<open>first_seen\<close>, and touches no
  other row and no log.
\<close>

theorem registerDevice_upsert:
  assumes "deviceRegistrationValidation b" and "reg_device_id b = Some d" and "binds db b"
  shows "(select_device (Some d) db = None \<longrightarrow>
            (\<exists>row. registerDevice (healthy t) b db =
                     (\<lparr>http_status = 201, success = True,
                       message = ''Device registered successfully'', error_code = None,
                       data = RegisterData (Some d) ''registered''\<rparr>,
                      db\<lparr>devices := devices db @ [row],
                         devices_seq := Suc (devices_seq db)\<rparr>) \<and>
                   device_id row = d \<and> Some (model row) = reg_model b \<and>
                   Some (manufacturer row) = reg_manufacturer b \<and>
                   os_version row = reg_os_version b \<and> app_version row = reg_app_version b \<and>
                   first_seen row = t \<and> last_seen row = t \<and> is_active row) \<and>
            (\<forall>b2 t2. deviceRegistrationValidation b2 \<and> reg_device_id b2 = Some d \<and>
                     binds db b2 \<longrightarrow>
               (let db1 = snd (registerDevice (healthy t) b db);
                    (r2, db2) = registerDevice (healthy t2) b2 db1
                in http_status r2 = 200 \<and> data r2 = RegisterData (Some d) ''updated'' \<and>
                   map_option first_seen (select_device (Some d) db2) = Some t \<and>
                   last_seen_of d db2 = Some t2 \<and>
                   length (rows_of d db2) = 1))) \<and>
         (select_device (Some d) db \<noteq> None \<longrightarrow>
            (\<exists>db'. registerDevice (healthy t) b db =
                     (\<lparr>http_status = 200, success = True,
                       message = ''Device updated successfully'', error_code = None,
                       data = RegisterData (Some d) ''updated''\<rparr>, db') \<and>
                   device_logs db' = device_logs db \<and>
                   list_all2 (\<lambda>old new. if device_id old = d then reregistered b t old new
                                         else new = old)
                     (devices db) (devices db')))"
proof (intro conjI impI)
  assume fresh: "select_device (Some d) db = None"
  obtain m mf where m: "reg_model b = Some m" and mf: "reg_manufacturer b = Some mf"
    using assms(1) by (auto simp: deviceRegistrationValidation_def dest!: notEmpty_SomeD)
  let ?row = "\<lparr>row_id = Suc (devices_seq db), device_id = d, model = m, manufacturer = mf,
               os_version = reg_os_version b, app_version = reg_app_version b,
               first_seen = t, last_seen = t, is_active = True,
               created_at = t, updated_at = t\<rparr>"
  let ?db1 = "db\<lparr>devices := devices db @ [?row], devices_seq := Suc (devices_seq db)\<rparr>"
  have first: "registerDevice (healthy t) b db =
                 ((ok ''Device registered successfully''
                     (RegisterData (Some d) ''registered''))\<lparr>http_status := 201\<rparr>, ?db1)"
    using registerDevice_new[OF assms(1), of db t] fresh assms(2,3) m mf by simp
  show "\<exists>row. registerDevice (healthy t) b db =
                     (\<lparr>http_status = 201, success = True,
                       message = ''Device registered successfully'', error_code = None,
                       data = RegisterData (Some d) ''registered''\<rparr>,
                      db\<lparr>devices := devices db @ [row],
                         devices_seq := Suc (devices_seq db)\<rparr>) \<and>
                   device_id row = d \<and> Some (model row) = reg_model b \<and>
                   Some (manufacturer row) = reg_manufacturer b \<and>
                   os_version row = reg_os_version b \<and> app_version row = reg_app_version b \<and>
                   first_seen row = t \<and> last_seen row = t \<and> is_active row"
    by (rule exI[of _ ?row]) (simp add: first ok_def m mf)
  have none: "\<forall>r\<in>set (devices db). device_id r \<noteq> d"
    using fresh by (auto simp: select_device_None_iff)
  have sel1: "select_device (Some d) ?db1 = Some ?row"
    using fresh by (simp add: select_device_def find_snoc)
  have rows1: "rows_of d ?db1 = [?row]"
    using none by (simp add: rows_of_def filter_empty_conv)
  show "\<forall>b2 t2. deviceRegistrationValidation b2 \<and> reg_device_id b2 = Some d \<and>
                binds db b2 \<longrightarrow>
               (let db1 = snd (registerDevice (healthy t) b db);
                    (r2, db2) = registerDevice (healthy t2) b2 db1
                in http_status r2 = 200 \<and> data r2 = RegisterData (Some d) ''updated'' \<and>
                   map_option first_seen (select_device (Some d) db2) = Some t \<and>
                   last_seen_of d db2 = Some t2 \<and>
                   length (rows_of d db2) = 1)"
  proof (intro allI impI)
    fix b2 t2
    assume v2: "deviceRegistrationValidation b2 \<and> reg_device_id b2 = Some d \<and> binds db b2"
    then have b2: "binds ?db1 b2" by (simp add: binds_def)
    have second: "registerDevice (healthy t2) b2 ?db1 =
           (ok ''Device updated successfully'' (RegisterData (Some d) ''updated''),
            update_devices t2
              (\<lambda>r. r\<lparr>model := the (reg_model b2), manufacturer := the (reg_manufacturer b2),
                      os_version := reg_os_version b2, app_version := reg_app_version b2,
                      last_seen := t2, is_active := True\<rparr>) (Some d) ?db1)"
      using registerDevice_existing[of b2 ?db1 t2] v2 sel1 b2 by simp
    have len: "length (rows_of d (update_devices t2 f (Some d) ?db1)) = 1"
      if "\<And>r. device_id (f r) = device_id r" for f
    proof -
      have "\<And>r. device_id (on_update (dbType db) t2 r (f r)) = device_id r"
        using that by (cases "dbType db") (simp_all add: on_update_def)
      then show ?thesis
        using none by (simp add: rows_of_def update_devices_def filter_map o_def filter_empty_conv)
    qed
    show "let db1 = snd (registerDevice (healthy t) b db);
              (r2, db2) = registerDevice (healthy t2) b2 db1
          in http_status r2 = 200 \<and> data r2 = RegisterData (Some d) ''updated'' \<and>
             map_option first_seen (select_device (Some d) db2) = Some t \<and>
             last_seen_of d db2 = Some t2 \<and> length (rows_of d db2) = 1"
      unfolding first snd_conv Let_def second prod.case
      apply (intro conjI)
          apply (simp add: ok_def)
         apply (simp add: ok_def)
        apply (subst select_device_update_devices, simp)
        apply (simp add: sel1 on_update_def split: db_type.splits)
       apply (simp add: last_seen_of_def)
       apply (subst select_device_update_devices, simp)
       apply (simp add: sel1 on_update_def split: db_type.splits)
      apply (rule len, simp)
      done
  qed
next
  assume known: "select_device (Some d) db \<noteq> None"
  let ?f = "\<lambda>r. r\<lparr>model := the (reg_model b), manufacturer := the (reg_manufacturer b),
                   os_version := reg_os_version b, app_version := reg_app_version b,
                   last_seen := t, is_active := True\<rparr>"
  obtain m mf where m: "reg_model b = Some m" and mf: "reg_manufacturer b = Some mf"
    using assms(1) by (auto simp: deviceRegistrationValidation_def dest!: notEmpty_SomeD)
  have upd: "registerDevice (healthy t) b db =
           (ok ''Device updated successfully'' (RegisterData (Some d) ''updated''),
            update_devices t ?f (Some d) db)"
    using registerDevice_existing[OF assms(1), of db t] known assms(2,3) by simp
  have rel: "list_all2 (\<lambda>old new. if device_id old = d then reregistered b t old new
                                   else new = old)
               (devices db) (devices (update_devices t ?f (Some d) db))"
    by (simp add: update_devices_def list_all2_map2 list_all2_same reregistered_on_update)
       (simp add: reregistered_def m mf)
  show "\<exists>db'. registerDevice (healthy t) b db =
                     (\<lparr>http_status = 200, success = True,
                       message = ''Device updated successfully'', error_code = None,
                       data = RegisterData (Some d) ''updated''\<rparr>, db') \<and>
                   device_logs db' = device_logs db \<and>
                   list_all2 (\<lambda>old new. if device_id old = d then reregistered b t old new
                                         else new = old)
                     (devices db) (devices db')"
    by (rule exI[of _ "update_devices t ?f (Some d) db"])
       (simp add: upd ok_def rel, simp add: update_devices_def)
qed

theorem registerDevice_upsert_witness:
  "deviceRegistrationValidation pixel \<and> reg_device_id pixel = Some ''dev-1'' \<and>
   binds (empty_db SQLite) pixel \<and> binds (pixel_db SQLite) pixel_bare \<and>
   select_device (Some ''dev-1'') (empty_db SQLite) = None \<and>
   select_device (Some ''dev-1'') (pixel_db SQLite) \<noteq> None \<and>
   http_status (fst (registerDevice (healthy 5) pixel (empty_db SQLite))) = 201 \<and>
   map first_seen (devices (snd (registerDevice (healthy 5) pixel (empty_db SQLite)))) = [5] \<and>
   http_status (fst (registerDevice (healthy 9) pixel_bare (pixel_db SQLite))) = 200 \<and>
   map first_seen (devices (snd (registerDevice (healthy 9) pixel_bare (pixel_db SQLite)))) = [5] \<and>
   map last_seen (devices (snd (registerDevice (healthy 9) pixel_bare (pixel_db SQLite)))) = [9] \<and>
   binds (pixel_db MySQL) pixel \<and> select_device (Some ''dev-1'') (pixel_db MySQL) \<noteq> None \<and>
   http_status (fst (registerDevice (healthy 9) pixel (pixel_db MySQL))) = 200 \<and>
   map first_seen (devices (snd (registerDevice (healthy 9) pixel (pixel_db MySQL)))) = [5] \<and>
   map last_seen (devices (snd (registerDevice (healthy 9) pixel (pixel_db MySQL)))) = [9]"
  using registerDevice_upsert[of pixel "''dev-1''" "empty_db SQLite" 5]
        registerDevice_upsert[of pixel_bare "''dev-1''" "pixel_db SQLite" 9]
        registerDevice_upsert[of pixel "''dev-1''" "pixel_db MySQL" 9]
  by (simp add: register_defs example_defs)

theorem registerDevice_created_counterexample:
  "deviceRegistrationValidation pixel \<and>
   select_device (reg_device_id pixel) (empty_db SQLite) = None \<and>
   http_status (fst (registerDevice (healthy 5) pixel (empty_db SQLite))) = 201 \<and>
   data (fst (registerDevice (healthy 5) pixel (empty_db SQLite)))
     = RegisterData (Some ''dev-1'') ''registered'' \<and>
   data (fst (registerDevice (healthy 5) pixel (empty_db SQLite)))
     \<noteq> RegisterData (Some ''dev-1'') ''created''"
  by (simp add: register_defs example_defs)


lemma registerDevice_overwrites_when_bound:
  assumes "deviceRegistrationValidation b" and "reg_device_id b = Some d"
    and "select_device (Some d) db = Some old" and "binds db b"
  shows "\<exists>new. select_device (Some d) (snd (registerDevice (healthy t) b db)) = Some new \<and>
               Some (model new) = reg_model b \<and>
               Some (manufacturer new) = reg_manufacturer b \<and>
               os_version new = reg_os_version b \<and>
               app_version new = reg_app_version b"
proof -
  obtain m mf where m: "reg_model b = Some m" and mf: "reg_manufacturer b = Some mf"
    using assms(1) by (auto simp: deviceRegistrationValidation_def dest!: notEmpty_SomeD)
  have old: "device_id old = d"
    using select_device_SomeD[OF assms(3)] by simp
  show ?thesis
    using registerDevice_existing[OF assms(1), of db t] assms(2,3,4) old
    by (simp add: select_device_update_devices m mf)
qed

text \<open>
  Claim C10 at a registration of an existing \<open>device_id\<close> without \<open>os_version\<close> and
  \<open>app_version\<close>, which the validation chain declares optional. On the SQLite connection
  the \<open>UPDATE\<close> stores \<open>NULL\<close> in both columns, as claimed. On the MySQL connection the
  driver refuses the \<open>undefined\<close> parameters: the handler answers 500
  \<open>REGISTRATION_FAILED\<close>, no column of the row is written and the stored \<open>os_version\<close>
  and \<open>app_version\<close> stay.
\<close>

theorem registerDevice_undefined_descriptors:
  "deviceRegistrationValidation pixel_bare \<and>
   reg_os_version pixel_bare = None \<and> reg_app_version pixel_bare = None \<and>
   map os_version (devices (pixel_db SQLite)) = [Some ''Android 13''] \<and>
   map app_version (devices (pixel_db SQLite)) = [Some ''1.0''] \<and>
   http_status (fst (registerDevice (healthy 9) pixel_bare (pixel_db SQLite))) = 200 \<and>
   map os_version (devices (snd (registerDevice (healthy 9) pixel_bare (pixel_db SQLite)))) = [None] \<and>
   map app_version (devices (snd (registerDevice (healthy 9) pixel_bare (pixel_db SQLite)))) = [None] \<and>
   map os_version (devices (pixel_db MySQL)) = [Some ''Android 13''] \<and>
   map app_version (devices (pixel_db MySQL)) = [Some ''1.0''] \<and>
   registerDevice (healthy 9) pixel_bare (pixel_db MySQL) =
     (\<lparr>http_status = 500, success = False, message = ''Internal server error'',
       error_code = Some ''REGISTRATION_FAILED'', data = NoData\<rparr>, pixel_db MySQL) \<and>
   map last_seen (devices (snd (registerDevice (healthy 9) pixel_bare (pixel_db MySQL)))) = [5]"
  by (simp add: register_defs example_defs)

section \<open>Synchronisation\<close>

lemmas sync_defs =
  syncDeviceData_def deviceSyncValidation_def optional_in_def insert_device_log_def
  update_device_seen_def last_seen_of_def rows_of_def logs_of_def

lemma deviceSyncValidation_D:
  "deviceSyncValidation b \<Longrightarrow> \<exists>d ts. sync_device_id b = Some d \<and> d \<noteq> [] \<and> sync_timestamp b = Some ts \<and> 0 \<le> ts"
  by (auto simp: deviceSyncValidation_def split: option.splits dest!: notEmpty_SomeD)

lemma select_device_logs_irrelevant [simp]:
  "select_device d (db\<lparr>device_logs := ls, device_logs_seq := n\<rparr>) = select_device d db"
  by (simp add: select_device_def)

lemma syncDeviceData_known:
  assumes "deviceSyncValidation b" and "sync_device_id b = Some d" and "sync_timestamp b = Some ts"
    and "select_device (Some d) db \<noteq> None"
  shows "syncDeviceData e b db =
     (if fails e 0 \<or> fails e 1 then (internal_error (Some ''SYNC_FAILED''), db)
      else if fails e 2 then
        (internal_error (Some ''SYNC_FAILED''),
         db\<lparr>device_logs := device_logs db @ [new_log (now e) b d ts db],
            device_logs_seq := Suc (device_logs_seq db)\<rparr>)
      else
        (ok ''Data synced successfully'' (SyncData (Some d) (date_now e) ''completed''),
         update_device_seen (now e) (Some d)
           (db\<lparr>device_logs := device_logs db @ [new_log (now e) b d ts db],
               device_logs_seq := Suc (device_logs_seq db)\<rparr>)))"
  using assms
  by (auto simp: syncDeviceData_def await_def insert_device_log_def new_log_def)

lemma last_seen_of_update_device_seen:
  assumes "select_device (Some d) db \<noteq> None"
  shows "last_seen_of d (update_device_seen t (Some d) db) = Some t"
proof -
  obtain r where r: "select_device (Some d) db = Some r" using assms by auto
  then have "device_id r = d" by (simp add: select_device_SomeD)
  then show ?thesis
    by (simp add: last_seen_of_def update_device_seen_def select_device_update_devices r)
qed

lemma last_seen_of_update_device_seen_other:
  assumes "d' \<noteq> d"
  shows "last_seen_of d (update_device_seen t (Some d') db) = last_seen_of d db"
proof (cases "select_device (Some d) db")
  case None
  then show ?thesis
    by (simp add: last_seen_of_def update_device_seen_def select_device_update_devices)
next
  case (Some r)
  then have "device_id r = d" by (simp add: select_device_SomeD)
  then show ?thesis using assms
    by (simp add: last_seen_of_def update_device_seen_def select_device_update_devices Some)
qed

lemma rows_of_update_device_seen_active:
  "list_all is_active (rows_of d (update_device_seen t (Some d) db))"
proof -
  have "list_all is_active
          (filter (\<lambda>r. device_id r = d)
             (map (\<lambda>r. if Some (device_id r) = Some d
                        then on_update ty t r (r\<lparr>last_seen := t, is_active := True\<rparr>) else r) xs))"
    for ty xs
    by (induction xs) simp_all
  then show ?thesis
    by (simp add: rows_of_def update_device_seen_def update_devices_def)
qed

lemma device_logs_update_devices [simp]:
  "device_logs (update_devices t f d db) = device_logs db"
  by (simp add: update_devices_def)


text \<open>
  Claim C2. A sync call that passes the validation of its route and whose \<open>device_id\<close>
  has no row is answered, once its lookup is executed, with 404 and error code
  \<open>DEVICE_NOT_FOUND\<close>; and whatever the storage engine does, the store after the call is
  the store before it: no log row is written and no device row is created.
\<close>

theorem syncDeviceData_unknown_device:
  assumes "deviceSyncValidation b" and "select_device (sync_device_id b) db = None"
  shows "(\<not> fails e 0 \<longrightarrow>
            fst (syncDeviceData e b db) =
              \<lparr>http_status = 404, success = False,
               message = ''Device not found. Please register first.'',
               error_code = Some ''DEVICE_NOT_FOUND'', data = NoData\<rparr>) \<and>
         snd (syncDeviceData e b db) = db"
  using assms
  by (simp add: syncDeviceData_def await_def not_found_def)

theorem syncDeviceData_unknown_device_witness:
  "deviceSyncValidation (sync_of ''dev-x'' (Some 1000)) \<and>
   select_device (sync_device_id (sync_of ''dev-x'' (Some 1000))) (pixel_db SQLite) = None \<and>
   \<not> fails (healthy 9) 0 \<and>
   http_status (fst (syncDeviceData (healthy 9) (sync_of ''dev-x'' (Some 1000)) (pixel_db SQLite))) = 404 \<and>
   error_code (fst (syncDeviceData (healthy 9) (sync_of ''dev-x'' (Some 1000)) (pixel_db SQLite)))
     = Some ''DEVICE_NOT_FOUND'' \<and>
   snd (syncDeviceData (healthy 9) (sync_of ''dev-x'' (Some 1000)) (pixel_db SQLite)) = pixel_db SQLite \<and>
   devices (pixel_db SQLite) \<noteq> [] \<and> device_logs (pixel_db SQLite) = []"
  using syncDeviceData_unknown_device[of "sync_of ''dev-x'' (Some 1000)" "pixel_db SQLite" "healthy 9"]
  by (simp add: register_defs example_defs sync_defs)


text \<open>
  Claim C3, as the code has it. A valid sync call for a registered device issues three
  statements in a row, with no transaction around the two writes. When none is rejected
  the answer is 200, exactly one log row of that device is appended, and the device has
  \<open>last_seen = now\<close> and \<open>is_active\<close> set. When the lookup or the \<open>INSERT\<close> is rejected the
  answer is 500 with \<open>SYNC_FAILED\<close> and the store is unchanged. When the \<open>UPDATE\<close> is
  rejected the answer is 500 with \<open>SYNC_FAILED\<close>, the log row stays appended and the device
  rows are as before.
\<close>

theorem syncDeviceData_two_writes:
  assumes "deviceSyncValidation b" and "sync_device_id b = Some d"
    and "select_device (Some d) db \<noteq> None"
  shows "\<exists>rec. log_device_id rec = d \<and> Some (timestamp rec) = sync_timestamp b \<and>
           (case syncDeviceData e b db of (r, db') \<Rightarrow>
              (\<not> fails e 0 \<and> \<not> fails e 1 \<and> \<not> fails e 2 \<longrightarrow>
                 http_status r = 200 \<and> device_logs db' = device_logs db @ [rec] \<and>
                 last_seen_of d db' = Some (now e) \<and> list_all is_active (rows_of d db')) \<and>
              (fails e 0 \<or> fails e 1 \<longrightarrow>
                 http_status r = 500 \<and> error_code r = Some ''SYNC_FAILED'' \<and> db' = db) \<and>
              (\<not> fails e 0 \<and> \<not> fails e 1 \<and> fails e 2 \<longrightarrow>
                 http_status r = 500 \<and> error_code r = Some ''SYNC_FAILED'' \<and>
                 device_logs db' = device_logs db @ [rec] \<and> devices db' = devices db))"
proof -
  obtain ts where ts: "sync_timestamp b = Some ts"
    using deviceSyncValidation_D[OF assms(1)] by auto
  let ?rec = "new_log (now e) b d ts db"
  let ?logged = "db\<lparr>device_logs := device_logs db @ [?rec],
                    device_logs_seq := Suc (device_logs_seq db)\<rparr>"
  have sel: "select_device (Some d) ?logged \<noteq> None"
    using assms(3) by simp
  have seen: "last_seen_of d (update_device_seen (now e) (Some d) ?logged) = Some (now e)"
    by (rule last_seen_of_update_device_seen[OF sel])
  have act: "list_all is_active (rows_of d (update_device_seen (now e) (Some d) ?logged))"
    by (rule rows_of_update_device_seen_active)
  have logs: "device_logs (update_device_seen (now e) (Some d) ?logged) = device_logs db @ [?rec]"
    by (simp add: update_device_seen_def)
  have f1: "log_device_id ?rec = d" by (simp add: new_log_def)
  have f2: "Some (timestamp ?rec) = sync_timestamp b" by (simp add: new_log_def ts)
  note known = syncDeviceData_known[OF assms(1,2) ts assms(3), of e]
  consider (early) "fails e 0 \<or> fails e 1"
    | (late) "\<not> fails e 0" "\<not> fails e 1" "fails e 2"
    | (none) "\<not> fails e 0" "\<not> fails e 1" "\<not> fails e 2"
    by blast
  then have main: "case syncDeviceData e b db of (r, db') \<Rightarrow>
              (\<not> fails e 0 \<and> \<not> fails e 1 \<and> \<not> fails e 2 \<longrightarrow>
                 http_status r = 200 \<and> device_logs db' = device_logs db @ [?rec] \<and>
                 last_seen_of d db' = Some (now e) \<and> list_all is_active (rows_of d db')) \<and>
              (fails e 0 \<or> fails e 1 \<longrightarrow>
                 http_status r = 500 \<and> error_code r = Some ''SYNC_FAILED'' \<and> db' = db) \<and>
              (\<not> fails e 0 \<and> \<not> fails e 1 \<and> fails e 2 \<longrightarrow>
                 http_status r = 500 \<and> error_code r = Some ''SYNC_FAILED'' \<and>
                 device_logs db' = device_logs db @ [?rec] \<and> devices db' = devices db)"
  proof cases
    case early
    then have "syncDeviceData e b db = (internal_error (Some ''SYNC_FAILED''), db)"
      using known by simp
    with early show ?thesis
      by (cases "fails e 0"; cases "fails e 1"; simp add: internal_error_def)
  next
    case late
    then have "syncDeviceData e b db = (internal_error (Some ''SYNC_FAILED''), ?logged)"
      using known by simp
    with late show ?thesis
      by (simp add: internal_error_def)
  next
    case none
    then have "syncDeviceData e b db =
        (ok ''Data synced successfully'' (SyncData (Some d) (date_now e) ''completed''),
         update_device_seen (now e) (Some d) ?logged)"
      using known by simp
    with none show ?thesis
      by (simp only: prod.case seen act logs) (simp add: ok_def)
  qed
  show ?thesis
    apply (rule exI[of _ ?rec])
    apply (intro conjI)
      apply (rule f1)
     apply (rule f2)
    apply (rule main)
    done
qed

theorem syncDeviceData_two_writes_witness:
  "deviceSyncValidation (sync_of ''dev-1'' (Some 1000)) \<and>
   sync_device_id (sync_of ''dev-1'' (Some 1000)) = Some ''dev-1'' \<and>
   select_device (Some ''dev-1'') (pixel_db SQLite) \<noteq> None \<and>
   http_status (fst (syncDeviceData (healthy 9) (sync_of ''dev-1'' (Some 1000)) (pixel_db SQLite))) = 200 \<and>
   map timestamp (device_logs (snd (syncDeviceData (healthy 9) (sync_of ''dev-1'' (Some 1000)) (pixel_db SQLite)))) = [1000] \<and>
   last_seen_of ''dev-1'' (snd (syncDeviceData (healthy 9) (sync_of ''dev-1'' (Some 1000)) (pixel_db SQLite))) = Some 9 \<and>
   fails (second_fails 9) 1 \<and>
   http_status (fst (syncDeviceData (second_fails 9) (sync_of ''dev-1'' (Some 1000)) (pixel_db SQLite))) = 500 \<and>
   snd (syncDeviceData (second_fails 9) (sync_of ''dev-1'' (Some 1000)) (pixel_db SQLite)) = pixel_db SQLite \<and>
   \<not> fails (third_fails 9) 0 \<and> \<not> fails (third_fails 9) 1 \<and> fails (third_fails 9) 2 \<and>
   http_status (fst (syncDeviceData (third_fails 9) (sync_of ''dev-1'' (Some 1000)) (pixel_db SQLite))) = 500 \<and>
   map timestamp (device_logs (snd (syncDeviceData (third_fails 9) (sync_of ''dev-1'' (Some 1000)) (pixel_db SQLite)))) = [1000] \<and>
   devices (snd (syncDeviceData (third_fails 9) (sync_of ''dev-1'' (Some 1000)) (pixel_db SQLite)))
     = devices (pixel_db SQLite)"
proof -
  let ?b = "sync_of ''dev-1'' (Some 1000)"
  have h1: "deviceSyncValidation ?b"
    by (simp add: sync_defs example_defs notEmpty_def)
  have h2: "sync_device_id ?b = Some ''dev-1''"
    by (simp add: example_defs)
  have h3: "select_device (Some ''dev-1'') (pixel_db SQLite) \<noteq> None"
    by (simp add: register_defs example_defs)
  have none: "\<not> fails (healthy 9) 0 \<and> \<not> fails (healthy 9) 1 \<and> \<not> fails (healthy 9) 2"
    by simp
  have early: "fails (second_fails 9) 0 \<or> fails (second_fails 9) 1" "fails (second_fails 9) 1"
    by (simp_all add: second_fails_def)
  have late: "\<not> fails (third_fails 9) 0 \<and> \<not> fails (third_fails 9) 1 \<and> fails (third_fails 9) 2"
    by (simp add: third_fails_def)
  have empty: "device_logs (pixel_db SQLite) = []"
    by (simp add: register_defs example_defs)
  from syncDeviceData_two_writes[OF h1 h2 h3, of "healthy 9"] none
  obtain rec where
    "Some (timestamp rec) = Some 1000"
    "http_status (fst (syncDeviceData (healthy 9) ?b (pixel_db SQLite))) = 200"
    "device_logs (snd (syncDeviceData (healthy 9) ?b (pixel_db SQLite)))
       = device_logs (pixel_db SQLite) @ [rec]"
    "last_seen_of ''dev-1'' (snd (syncDeviceData (healthy 9) ?b (pixel_db SQLite))) = Some 9"
    by (auto simp: split_beta sync_of_def)
  then have smooth:
    "http_status (fst (syncDeviceData (healthy 9) ?b (pixel_db SQLite))) = 200 \<and>
     map timestamp (device_logs (snd (syncDeviceData (healthy 9) ?b (pixel_db SQLite)))) = [1000] \<and>
     last_seen_of ''dev-1'' (snd (syncDeviceData (healthy 9) ?b (pixel_db SQLite))) = Some 9"
    using empty by simp
  from syncDeviceData_two_writes[OF h1 h2 h3, of "second_fails 9"] early(1)
  have stopped:
    "http_status (fst (syncDeviceData (second_fails 9) ?b (pixel_db SQLite))) = 500 \<and>
     snd (syncDeviceData (second_fails 9) ?b (pixel_db SQLite)) = pixel_db SQLite"
    by (auto simp: split_beta)
  from syncDeviceData_two_writes[OF h1 h2 h3, of "third_fails 9"] late
  obtain rec' where
    "Some (timestamp rec') = Some 1000"
    "http_status (fst (syncDeviceData (third_fails 9) ?b (pixel_db SQLite))) = 500"
    "device_logs (snd (syncDeviceData (third_fails 9) ?b (pixel_db SQLite)))
       = device_logs (pixel_db SQLite) @ [rec']"
    "devices (snd (syncDeviceData (third_fails 9) ?b (pixel_db SQLite))) = devices (pixel_db SQLite)"
    by (auto simp: split_beta sync_of_def)
  then have torn:
    "http_status (fst (syncDeviceData (third_fails 9) ?b (pixel_db SQLite))) = 500 \<and>
     map timestamp (device_logs (snd (syncDeviceData (third_fails 9) ?b (pixel_db SQLite)))) = [1000] \<and>
     devices (snd (syncDeviceData (third_fails 9) ?b (pixel_db SQLite))) = devices (pixel_db SQLite)"
    using empty by simp
  show ?thesis
    using h1 h2 h3 smooth early(2) stopped late torn by blast
qed

theorem syncDeviceData_atomic_counterexample:
  "deviceSyncValidation (sync_of ''dev-1'' (Some 1000)) \<and>
   select_device (Some ''dev-1'') (pixel_db SQLite) \<noteq> None \<and>
   http_status (fst (syncDeviceData (third_fails 9) (sync_of ''dev-1'' (Some 1000)) (pixel_db SQLite))) = 500 \<and>
   length (device_logs (pixel_db SQLite)) = 0 \<and>
   length (device_logs (snd (syncDeviceData (third_fails 9) (sync_of ''dev-1'' (Some 1000)) (pixel_db SQLite)))) = 1 \<and>
   last_seen_of ''dev-1'' (pixel_db SQLite) = Some 5 \<and>
   last_seen_of ''dev-1'' (snd (syncDeviceData (third_fails 9) (sync_of ''dev-1'' (Some 1000)) (pixel_db SQLite))) = Some 5"
  by (simp add: register_defs example_defs sync_defs)

section \<open>Deletion\<close>

lemma delete_device_known:
  assumes "select_device (Some d) db \<noteq> None"
  shows "delete_device d db =
           db\<lparr>devices := filter (\<lambda>r. device_id r \<noteq> d) (devices db),
              device_logs :=
                (case dbType db of
                   MySQL \<Rightarrow> filter (\<lambda>l. log_device_id l \<noteq> d) (device_logs db)
                 | SQLite \<Rightarrow> device_logs db)\<rparr>"
proof -
  have "d \<in> device_id ` set (devices db)"
    using assms by (simp add: select_device_None_iff)
  then have "device_id ` set (filter (\<lambda>r. device_id r = d) (devices db)) = {d}"
    by auto
  then show ?thesis
    by (simp add: delete_device_def Let_def split: db_type.splits)
qed

lemma select_device_filter_other:
  "select_device (Some d') (db\<lparr>devices := filter (\<lambda>r. device_id r \<noteq> d) (devices db),
                               device_logs := ls\<rparr>) = None
   \<longleftrightarrow> d' = d \<or> select_device (Some d') db = None"
  by (auto simp: select_device_None_iff)

lemma referential_integrity_delete:
  assumes "referential_integrity db"
  shows "referential_integrity
           (db\<lparr>devices := filter (\<lambda>r. device_id r \<noteq> d) (devices db),
               device_logs := filter (\<lambda>l. log_device_id l \<noteq> d) (device_logs db)\<rparr>)"
  using assms
  unfolding referential_integrity_def list_all_iff
  by (simp add: select_device_filter_other)

lemmas query_defs =
  deleteDevice_def delete_device_def getDeviceDetails_def getAllDevices_def heartbeat_def
  update_device_heartbeat_def referential_integrity_def or_default_def
  sql_limit_offset_def bind_integer_def math_ceil_div_def whereClause_def order_by_last_seen_desc_def
  order_by_timestamp_desc_def latest_log_def returned_devices_def returned_pagination_def

lemma synced_db_eval:
  "synced_db ty =
     \<lparr>dbType = ty,
      devices = [\<lparr>row_id = 1, device_id = ''dev-1'', model = ''Pixel 6'',
                  manufacturer = ''Google'', os_version = Some ''Android 13'',
                  app_version = Some ''1.0'', first_seen = 5, last_seen = 7, is_active = True,
                  created_at = 5, updated_at = (case ty of MySQL \<Rightarrow> 7 | SQLite \<Rightarrow> 5)\<rparr>],
      device_logs = [\<lparr>log_row_id = 1, log_device_id = ''dev-1'', battery_level = Some 85,
                      network_status = Some ''wifi'', latitude = Some 52,
                      longitude = Some 13, local_ip = Some ''10.0.0.2'',
                      public_ip = Some ''203.0.113.7'', timestamp = 1000,
                      log_created_at = 7\<rparr>],
      devices_seq = 1, device_logs_seq = 1\<rparr>"
  by (cases ty) (simp_all add: synced_db_def register_defs example_defs sync_defs)


text \<open>With the foreign key enforced (the MySQL connection) the delete does what the
  comment of \<open>deleteDevice\<close> says: the row and, through the cascade, every log row of the
  device are removed.\<close>

lemma deleteDevice_cascade_enforced:
  assumes "dbType db = MySQL"
  shows "(select_device (Some d) db \<noteq> None \<longrightarrow>
      (\<exists>db'. deleteDevice (healthy t) d db =
               (\<lparr>http_status = 200, success = True, message = ''Device deleted successfully'',
                 error_code = None, data = NoData\<rparr>, db') \<and>
             rows_of d db' = [] \<and> length (logs_of d db') = 0 \<and>
             (referential_integrity db \<longrightarrow> referential_integrity db') \<and>
             (\<forall>d'. d' \<noteq> d \<longrightarrow> rows_of d' db' = rows_of d' db \<and> logs_of d' db' = logs_of d' db) \<and>
             getDeviceDetails (healthy t') d q db' =
               \<lparr>http_status = 404, success = False, message = ''Device not found'',
                error_code = None, data = NoData\<rparr> \<and>
             deleteDevice (healthy t') d db' =
               (\<lparr>http_status = 404, success = False, message = ''Device not found'',
                 error_code = None, data = NoData\<rparr>, db'))) \<and>
   (select_device (Some d) db = None \<longrightarrow>
      deleteDevice (healthy t) d db =
        (\<lparr>http_status = 404, success = False, message = ''Device not found'',
          error_code = None, data = NoData\<rparr>, db))"
proof (intro conjI impI)
  assume known: "select_device (Some d) db \<noteq> None"
  let ?db' = "db\<lparr>devices := filter (\<lambda>r. device_id r \<noteq> d) (devices db),
                 device_logs := filter (\<lambda>l. log_device_id l \<noteq> d) (device_logs db)\<rparr>"
  have del: "deleteDevice (healthy t) d db = (ok ''Device deleted successfully'' NoData, ?db')"
    using known assms by (auto simp: deleteDevice_def delete_device_known)
  have gone: "select_device (Some d) ?db' = None"
    by (simp add: select_device_filter_other)
  have others: "\<forall>d'. d' \<noteq> d \<longrightarrow> rows_of d' ?db' = rows_of d' db \<and> logs_of d' ?db' = logs_of d' db"
    by (auto simp: rows_of_def logs_of_def intro: filter_cong)
  show "\<exists>db'. deleteDevice (healthy t) d db =
               (\<lparr>http_status = 200, success = True, message = ''Device deleted successfully'',
                 error_code = None, data = NoData\<rparr>, db') \<and>
             rows_of d db' = [] \<and> length (logs_of d db') = 0 \<and>
             (referential_integrity db \<longrightarrow> referential_integrity db') \<and>
             (\<forall>d'. d' \<noteq> d \<longrightarrow> rows_of d' db' = rows_of d' db \<and> logs_of d' db' = logs_of d' db) \<and>
             getDeviceDetails (healthy t') d q db' =
               \<lparr>http_status = 404, success = False, message = ''Device not found'',
                error_code = None, data = NoData\<rparr> \<and>
             deleteDevice (healthy t') d db' =
               (\<lparr>http_status = 404, success = False, message = ''Device not found'',
                 error_code = None, data = NoData\<rparr>, db')"
  proof (rule exI[of _ ?db'], intro conjI)
    show "deleteDevice (healthy t) d db =
               (\<lparr>http_status = 200, success = True, message = ''Device deleted successfully'',
                 error_code = None, data = NoData\<rparr>, ?db')"
      by (simp add: del ok_def)
    show "rows_of d ?db' = []" by (simp add: rows_of_def)
    show "length (logs_of d ?db') = 0" by (simp add: logs_of_def)
    show "referential_integrity db \<longrightarrow> referential_integrity ?db'"
      by (simp add: referential_integrity_delete)
    show "\<forall>d'. d' \<noteq> d \<longrightarrow> rows_of d' ?db' = rows_of d' db \<and> logs_of d' ?db' = logs_of d' db"
      by (rule others)
    show "getDeviceDetails (healthy t') d q ?db' =
               \<lparr>http_status = 404, success = False, message = ''Device not found'',
                error_code = None, data = NoData\<rparr>"
      unfolding getDeviceDetails_def await_healthy gone by (simp add: not_found_def)
    show "deleteDevice (healthy t') d ?db' =
               (\<lparr>http_status = 404, success = False, message = ''Device not found'',
                 error_code = None, data = NoData\<rparr>, ?db')"
      unfolding deleteDevice_def await_healthy gone by (simp add: not_found_def)
  qed
next
  assume "select_device (Some d) db = None"
  then show "deleteDevice (healthy t) d db =
        (\<lparr>http_status = 404, success = False, message = ''Device not found'',
          error_code = None, data = NoData\<rparr>, db)"
    by (simp add: deleteDevice_def not_found_def)
qed

lemma deleteDevice_not_enforced:
  assumes "dbType db = SQLite" and "select_device (Some d) db \<noteq> None"
  shows "deleteDevice (healthy t) d db =
           (ok ''Device deleted successfully'' NoData,
            db\<lparr>devices := filter (\<lambda>r. device_id r \<noteq> d) (devices db)\<rparr>)"
  using assms by (auto simp: deleteDevice_def delete_device_known)

text \<open>
  Claim C4 on the SQLite connection, which is the default one. \<open>dev-1\<close> is registered and
  has one log row. Deleting it answers 200 and removes the row of \<open>devices\<close>, and a later
  detail query or a second delete answers 404, as does the delete of a \<open>device_id\<close> that
  has no row. But the foreign key is not enforced on this connection, the cascade that
  the comment of \<open>deleteDevice\<close> relies on does not run, and the log row of \<open>dev-1\<close> is still
  there: the log count of the device is 1, not 0, and the row references no device. On
  the MySQL connection the same delete leaves no log.
\<close>

theorem deleteDevice_leaves_logs:
  "select_device (Some ''dev-1'') (synced_db SQLite) \<noteq> None \<and>
   length (logs_of ''dev-1'' (synced_db SQLite)) = 1 \<and>
   referential_integrity (synced_db SQLite) \<and>
   fst (deleteDevice (healthy 9) ''dev-1'' (synced_db SQLite)) =
     \<lparr>http_status = 200, success = True, message = ''Device deleted successfully'',
      error_code = None, data = NoData\<rparr> \<and>
   devices (snd (deleteDevice (healthy 9) ''dev-1'' (synced_db SQLite))) = [] \<and>
   device_logs (snd (deleteDevice (healthy 9) ''dev-1'' (synced_db SQLite)))
     = device_logs (synced_db SQLite) \<and>
   length (logs_of ''dev-1'' (snd (deleteDevice (healthy 9) ''dev-1'' (synced_db SQLite)))) = 1 \<and>
   \<not> referential_integrity (snd (deleteDevice (healthy 9) ''dev-1'' (synced_db SQLite))) \<and>
   http_status (getDeviceDetails (healthy 10) ''dev-1'' \<lparr>d_page = None, d_limit = None\<rparr>
                  (snd (deleteDevice (healthy 9) ''dev-1'' (synced_db SQLite)))) = 404 \<and>
   http_status (fst (deleteDevice (healthy 10) ''dev-1''
                  (snd (deleteDevice (healthy 9) ''dev-1'' (synced_db SQLite))))) = 404 \<and>
   http_status (fst (deleteDevice (healthy 9) ''dev-x'' (synced_db SQLite))) = 404 \<and>
   length (logs_of ''dev-1'' (snd (deleteDevice (healthy 9) ''dev-1'' (synced_db MySQL)))) = 0"
  by (simp add: synced_db_eval select_device_def logs_of_def rows_of_def query_defs await_def
      healthy_def ok_def not_found_def)


section \<open>Heartbeat\<close>

lemma last_seen_unchanged_iff: "r\<lparr>last_seen := t\<rparr> = r \<longleftrightarrow> last_seen r = t"
  by (cases r) auto

lemma on_update_heartbeat:
  "on_update ty t r (r\<lparr>last_seen := t\<rparr>) =
     r\<lparr>last_seen := t,
       updated_at := (if ty = MySQL \<and> last_seen r \<noteq> t then t else updated_at r)\<rparr>"
  by (cases ty) (auto simp: on_update_def last_seen_unchanged_iff)


text \<open>
  Claim C6, as the code has it. A heartbeat always answers 200 and only rewrites the rows
  of \<open>devices\<close>: no log is written and no row is added or removed. A row of the named
  device gets \<open>last_seen = now\<close>; with the MySQL schema its \<open>updated_at\<close> is set to the
  clock as well when \<open>last_seen\<close> changes; every other column, and every other row, is as
  before. When the device has no row the store is unchanged.
\<close>

theorem heartbeat_touches_last_seen:
  "\<exists>rows. heartbeat (healthy t) d db =
            (\<lparr>http_status = 200, success = True, message = ''Heartbeat received'',
              error_code = None, data = HeartbeatData (1000 * t)\<rparr>,
             db\<lparr>devices := rows\<rparr>) \<and>
          list_all2 (\<lambda>old new.
                       if Some (device_id old) = d
                       then new = old\<lparr>last_seen := t,
                                      updated_at := (if dbType db = MySQL \<and> last_seen old \<noteq> t
                                                     then t else updated_at old)\<rparr>
                       else new = old)
            (devices db) rows \<and>
          (select_device d db = None \<longrightarrow> rows = devices db)"
proof -
  let ?g = "\<lambda>r. if Some (device_id r) = d
                 then on_update (dbType db) t r (r\<lparr>last_seen := t\<rparr>) else r"
  have hb: "heartbeat (healthy t) d db =
              (ok ''Heartbeat received'' (HeartbeatData (1000 * t)),
               db\<lparr>devices := map ?g (devices db)\<rparr>)"
    by (simp add: heartbeat_def update_device_heartbeat_def update_devices_def)
  have rel: "list_all2 (\<lambda>old new.
                       if Some (device_id old) = d
                       then new = old\<lparr>last_seen := t,
                                      updated_at := (if dbType db = MySQL \<and> last_seen old \<noteq> t
                                                     then t else updated_at old)\<rparr>
                       else new = old)
            (devices db) (map ?g (devices db))"
    by (simp add: list_all2_map2 list_all2_same on_update_heartbeat)
  have noop: "select_device d db = None \<longrightarrow> map ?g (devices db) = devices db"
    by (auto simp: select_device_def find_None_iff intro!: map_idI)
  show ?thesis
    apply (rule exI[of _ "map ?g (devices db)"])
    apply (intro conjI)
      apply (simp add: hb ok_def)
     apply (rule rel)
    apply (rule noop)
    done
qed

theorem heartbeat_touches_last_seen_witness:
  "select_device (Some ''dev-x'') (pixel_db SQLite) = None \<and>
   heartbeat (healthy 9) (Some ''dev-x'') (pixel_db SQLite) =
     (ok ''Heartbeat received'' (HeartbeatData 9000), pixel_db SQLite) \<and>
   select_device (Some ''dev-1'') (pixel_db SQLite) \<noteq> None \<and>
   snd (heartbeat (healthy 9) (Some ''dev-1'') (pixel_db SQLite)) =
     (pixel_db SQLite)\<lparr>devices := map (\<lambda>r. r\<lparr>last_seen := 9\<rparr>) (devices (pixel_db SQLite))\<rparr>"
  using heartbeat_touches_last_seen[of 9 "Some ''dev-x''" "pixel_db SQLite"]
        heartbeat_touches_last_seen[of 9 "Some ''dev-1''" "pixel_db SQLite"]
  by (simp add: register_defs example_defs query_defs)

theorem heartbeat_only_last_seen_counterexample:
  "select_device (Some ''dev-1'') (pixel_db MySQL) \<noteq> None \<and>
   map updated_at (devices (pixel_db MySQL)) = [5] \<and>
   http_status (fst (heartbeat (healthy 9) (Some ''dev-1'') (pixel_db MySQL))) = 200 \<and>
   map updated_at (devices (snd (heartbeat (healthy 9) (Some ''dev-1'') (pixel_db MySQL)))) = [9]"
  by (simp add: register_defs example_defs query_defs)

section \<open>Listing devices\<close>

subsection \<open>Numbers that a double holds exactly\<close>

lemma round_double_safe:
  assumes "\<bar>n\<bar> < 2 ^ 53"
  shows "round_double n = n"
proof -
  have "nat \<bar>n\<bar> < 2 ^ 53"
    using assms by (simp add: nat_less_iff)
  then have "floorlog 2 (nat \<bar>n\<bar>) \<le> 53"
    by (simp add: floorlog_le_iff)
  then show ?thesis
    by (simp add: round_double_def Let_def)
qed

lemma round_double_large: "round_double (2 ^ 63 - 1) = 2 ^ 63"
proof -
  have a: "nat \<bar>(2::int) ^ 63 - 1\<bar> = 2 ^ 63 - 1" by simp
  have "floorlog 2 (2 ^ 63 - 1) \<le> 63"
    by (rule floorlog_leI) simp_all
  moreover have "63 \<le> floorlog 2 (2 ^ 63 - 1)"
    by (rule floorlog_geI) simp_all
  ultimately have "floorlog 2 (nat \<bar>2 ^ 63 - 1\<bar>) = 63"
    unfolding a by simp
  then show ?thesis
    unfolding round_double_def Let_def by simp
qed

lemma ToNumber_safe:
  assumes "\<bar>n\<bar> < 2 ^ 53"
  shows "ToNumber n = Num n"
proof -
  have "(2::int) ^ 53 \<le> 2 ^ 1024"
    by (rule power_increasing) simp_all
  then have "n < 2 ^ 1024" "- (2 ^ 1024) < n"
    using assms by linarith+
  then show ?thesis
    by (simp add: ToNumber_def round_double_safe[OF assms])
qed

lemma parseInt_safe:
  assumes "\<bar>n\<bar> < 2 ^ 53"
  shows "parseInt (Num n) = Num n"
proof -
  have "(2::int) ^ 53 \<le> 10 ^ 21"
    by simp
  then have "\<bar>n\<bar> < 10 ^ 21"
    using assms by linarith
  then show ?thesis
    by (simp add: parseInt_def)
qed

lemma offset_safe:
  assumes "1 \<le> p" and "p < 2 ^ 53" and "0 < l" and "l < 2 ^ 53" and "(p - 1) * l < 2 ^ 53"
  shows "parseInt (js_times (js_minus_one (ToNumber p)) (ToNumber l)) = Num ((p - 1) * l)"
proof -
  have p: "ToNumber p = Num p" and l: "ToNumber l = Num l"
    using assms by (simp_all add: ToNumber_safe)
  have p1: "round_double (p - 1) = p - 1"
    using assms by (simp add: round_double_safe)
  have "0 \<le> (p - 1) * l"
    using assms by simp
  then have off: "\<bar>(p - 1) * l\<bar> < 2 ^ 53"
    using assms(5) by simp
  show ?thesis
    by (simp add: p l p1 ToNumber_safe[OF off] parseInt_safe[OF off])
qed

lemma bind_integer_safe:
  assumes "0 \<le> a" and "a < 2 ^ 53"
  shows "bind_integer ty (Num a) = Inr a"
proof -
  have "(2::int) ^ 53 \<le> 2 ^ 63" "(2::int) ^ 53 \<le> 2 ^ 64"
    by (rule power_increasing; simp)+
  then have "a < 2 ^ 63" "a < 2 ^ 64" "- (2 ^ 63) < a"
    using assms by linarith+
  then show ?thesis
    using assms(1) by (cases ty) (simp_all add: bind_integer_def)
qed

lemma sql_limit_offset_safe:
  assumes "0 \<le> l" and "l < 2 ^ 53" and "0 \<le> off" and "off < 2 ^ 53"
  shows "sql_limit_offset ty (Num l) (Num off) xs = Inr (take (nat l) (drop (nat off) xs))"
  using assms by (simp add: sql_limit_offset_def bind_integer_safe)

lemma sql_limit_offset_subset:
  assumes "sql_limit_offset ty lmt off xs = Inr ys"
  shows "set ys \<subseteq> set xs"
proof -
  obtain l k where ys: "ys = (if l < 0 then (\<lambda>zs. zs) else take (nat l)) (drop (nat k) xs)"
    using assms by (auto simp: sql_limit_offset_def split: sum.splits)
  have "set ys \<subseteq> set (drop (nat k) xs)"
    unfolding ys by (simp add: set_take_subset)
  then show ?thesis
    using set_drop_subset by fast
qed

subsection \<open>The order of the rows\<close>

lemma order_by_last_seen_desc_mset:
  assumes "mset (device_scan e rs) = mset rs"
  shows "mset (order_by_last_seen_desc e rs) = mset rs"
  using assms by (simp add: order_by_last_seen_desc_def)

lemma order_by_last_seen_desc_healthy [simp]:
  "set (order_by_last_seen_desc (healthy t) rs) = set rs"
  "length (order_by_last_seen_desc (healthy t) rs) = length rs"
  by (simp_all add: order_by_last_seen_desc_def)

lemma order_by_last_seen_desc_sorted:
  "sorted_wrt (\<lambda>a b. last_seen b \<le> last_seen a) (order_by_last_seen_desc e rs)"
proof -
  have "sorted (map (\<lambda>r. - last_seen r) (order_by_last_seen_desc e rs))"
    unfolding order_by_last_seen_desc_def by (rule sorted_sort_key)
  then show ?thesis
    by (simp add: sorted_map)
qed

text \<open>Rows of equal \<open>last_seen\<close> come back in the order of the engine's scan: in
  insertion order when it scans the table, reversed when it scans backwards.\<close>

lemma order_by_last_seen_desc_ties:
  assumes "last_seen a = last_seen b"
  shows "order_by_last_seen_desc (healthy t) [a, b] = [a, b]"
    and "order_by_last_seen_desc (reversed t) [a, b] = [b, a]"
  using assms by (simp_all add: order_by_last_seen_desc_def reversed_def healthy_def)

lemma math_ceil_div_pos:
  assumes "0 < l"
  shows "\<exists>k. math_ceil_div n (Num l) = Some k \<and> k = \<lceil>real n / real_of_int l\<rceil> \<and>
             (k - 1) * l < int n \<and> int n \<le> k * l"
proof -
  let ?k = "\<lceil>real n / real_of_int l\<rceil>"
  have pos: "0 < real_of_int l" using assms by simp
  have "(of_int ?k - 1) * real_of_int l < real n"
    by (rule ceiling_divide_lower[OF pos])
  then have "real_of_int ((?k - 1) * l) < real_of_int (int n)" by simp
  then have lo: "(?k - 1) * l < int n" by (simp only: of_int_less_iff)
  have "real n \<le> of_int ?k * real_of_int l"
    by (rule ceiling_divide_upper[OF pos])
  then have "real_of_int (int n) \<le> real_of_int (?k * l)" by simp
  then have hi: "int n \<le> ?k * l" by (simp only: of_int_le_iff)
  show ?thesis
    using assms lo hi by (simp add: math_ceil_div_def)
qed

subsection \<open>The answer of \<open>getAllDevices\<close>\<close>

lemma getAllDevices_safe:
  assumes "or_default 1 (q_page q) = p" and "or_default 50 (q_limit q) = l"
    and "or_default [] (q_search q) = search" and "or_default ''all'' (q_status q) = status"
    and "1 \<le> p" and "0 < l" and "p < 2 ^ 53" and "l < 2 ^ 53" and "(p - 1) * l < 2 ^ 53"
    and "\<forall>k. \<not> fails e k"
  shows "getAllDevices e q db =
           ok [] (DevicesData
                    (map (\<lambda>r. (r, latest_log e (device_id r) db))
                       (take (nat l) (drop (nat ((p - 1) * l))
                          (order_by_last_seen_desc e
                             (filter (whereClause search status) (devices db))))))
                    \<lparr>page = Num p, limit = Num l,
                     total = length (filter (whereClause search status) (devices db)),
                     pages = math_ceil_div
                               (length (filter (whereClause search status) (devices db)))
                               (Num l)\<rparr>)"
proof -
  have off: "0 \<le> (p - 1) * l" using assms(5,6) by simp
  have l0: "0 \<le> l" using assms(6) by simp
  have l: "ToNumber l = Num l" and p: "ToNumber p = Num p"
    using assms(5-8) by (simp_all add: ToNumber_safe)
  have aw: "await e k r = r" for k and r :: "db_error + 'a"
    using assms(10) by (simp add: await_def)
  show ?thesis
    unfolding getAllDevices_def Let_def assms(1-4) aw offset_safe[OF assms(5,7,6,8,9)]
    unfolding l p sql_limit_offset_safe[OF l0 assms(8) off assms(9)]
    using assms(10) by (simp add: list_ex_iff)
qed

lemma returned_devices_subset:
  "set (returned_devices (getAllDevices (healthy t) q db))
   \<subseteq> set (filter (whereClause (or_default [] (q_search q)) (or_default ''all'' (q_status q)))
            (devices db))"
proof -
  let ?F = "filter (whereClause (or_default [] (q_search q)) (or_default ''all'' (q_status q)))
              (devices db)"
  let ?r = "sql_limit_offset (dbType db) (ToNumber (or_default 50 (q_limit q)))
              (parseInt (js_times (js_minus_one (ToNumber (or_default 1 (q_page q))))
                           (ToNumber (or_default 50 (q_limit q)))))
              (order_by_last_seen_desc (healthy t) ?F)"
  show ?thesis
  proof (cases ?r)
    case (Inl err)
    then show ?thesis
      unfolding getAllDevices_def Let_def await_healthy
      by (simp add: returned_devices_def internal_error_def)
  next
    case (Inr devs)
    then have "set devs \<subseteq> set ?F"
      using sql_limit_offset_subset[OF Inr] by simp
    then show ?thesis
      unfolding getAllDevices_def Let_def await_healthy Inr
      by (simp add: returned_devices_def ok_def o_def list_ex_iff)
  qed
qed

lemma two_device_db_eval:
  "two_device_db ty =
     \<lparr>dbType = ty,
      devices = [\<lparr>row_id = 1, device_id = ''dev-1'', model = ''Pixel 6'',
                  manufacturer = ''Google'', os_version = Some ''Android 13'',
                  app_version = Some ''1.0'', first_seen = 5, last_seen = 5, is_active = True,
                  created_at = 5, updated_at = 5\<rparr>,
                 \<lparr>row_id = 2, device_id = ''dev-2'', model = ''Galaxy S21'',
                  manufacturer = ''Samsung'', os_version = Some ''Android 12'',
                  app_version = Some ''1.0'', first_seen = 6, last_seen = 6, is_active = True,
                  created_at = 6, updated_at = 6\<rparr>],
      device_logs = [], devices_seq = 2, device_logs_seq = 0\<rparr>"
  by (cases ty) (simp_all add: two_device_db_def register_defs example_defs)

lemma whereClause_active:
  "whereClause search ''active'' r \<longleftrightarrow> whereClause search ''all'' r \<and> is_active r"
  by (auto simp: whereClause_def)

lemma returned_devices_healthy:
  assumes "1 \<le> p" and "0 < l" and "p < 2 ^ 53" and "l < 2 ^ 53" and "(p - 1) * l < 2 ^ 53"
  shows "returned_devices
           (getAllDevices (healthy t)
              \<lparr>q_page = Some p, q_limit = Some l, q_search = s, q_status = Some status\<rparr> db)
         = take (nat l) (drop (nat ((p - 1) * l))
             (order_by_last_seen_desc (healthy t)
                (filter (whereClause (or_default [] s) status) (devices db))))"
  by (subst getAllDevices_safe[where p = p and l = l and search = "or_default [] s"
        and status = status])
     (use assms in \<open>simp_all add: or_default_def returned_devices_def ok_def o_def\<close>)

lemma returned_total_healthy:
  assumes "1 \<le> p" and "0 < l" and "p < 2 ^ 53" and "l < 2 ^ 53" and "(p - 1) * l < 2 ^ 53"
  shows "map_option total (returned_pagination
           (getAllDevices (healthy t)
              \<lparr>q_page = Some p, q_limit = Some l, q_search = s, q_status = Some status\<rparr> db))
         = Some (length (filter (whereClause (or_default [] s) status) (devices db)))"
  by (subst getAllDevices_safe[where p = p and l = l and search = "or_default [] s"
        and status = status])
     (use assms in \<open>simp_all add: or_default_def returned_pagination_def ok_def\<close>)

lemma two_device_db_listing:
  "returned_devices (getAllDevices (healthy 9) (all_devices 1 50 st) (two_device_db ty))
   = take 50 (order_by_last_seen_desc (healthy 9)
               (filter (whereClause [] st) (devices (two_device_db ty))))"
  unfolding all_devices_def
  by (subst returned_devices_healthy) (simp_all add: or_default_def)


text \<open>
  Claim C7, as the code has it. \<open>page\<close> and \<open>limit\<close> are JavaScript numbers, and the claim
  holds where the arithmetic on them is exact: for a page number of at least 1 and a
  positive limit such that both, and the offset \<open>(page - 1) * limit\<close>, are below \<open>2 ^ 53\<close>.
  Then, when the storage engine rejects no statement, \<open>getAllDevices\<close> answers 200 with
  the slice of length at most \<open>limit\<close> that starts at offset \<open>(page - 1) * limit\<close> of a
  list of the rows passing the filter, sorted by \<open>last_seen\<close> descending (the order among
  rows of equal \<open>last_seen\<close> is the engine's choice); \<open>total\<close> is the number of rows
  passing the filter, before pagination; and \<open>pages\<close> is the ceiling of \<open>total / limit\<close>,
  that is the one integer \<open>k\<close> with \<open>(k - 1) * limit < total \<le> k * limit\<close>.
\<close>

theorem getAllDevices_pagination:
  assumes "or_default 1 (q_page q) = p" and "or_default 50 (q_limit q) = l"
    and "or_default [] (q_search q) = search" and "or_default ''all'' (q_status q) = status"
    and "1 \<le> p" and "0 < l" and "p < 2 ^ 53" and "l < 2 ^ 53" and "(p - 1) * l < 2 ^ 53"
    and "\<forall>k. \<not> fails e k" and "\<forall>rows. mset (device_scan e rows) = mset rows"
  shows "\<exists>sorted_rows k.
           mset sorted_rows = mset (filter (whereClause search status) (devices db)) \<and>
           sorted_wrt (\<lambda>a b. last_seen b \<le> last_seen a) sorted_rows \<and>
           http_status (getAllDevices e q db) = 200 \<and>
           returned_devices (getAllDevices e q db)
             = take (nat l) (drop (nat ((p - 1) * l)) sorted_rows) \<and>
           length (returned_devices (getAllDevices e q db)) \<le> nat l \<and>
           returned_pagination (getAllDevices e q db)
             = Some \<lparr>page = Num p, limit = Num l,
                     total = length (filter (whereClause search status) (devices db)),
                     pages = Some k\<rparr> \<and>
           k = \<lceil>real (length (filter (whereClause search status) (devices db)))
                  / real_of_int l\<rceil> \<and>
           (k - 1) * l < int (length (filter (whereClause search status) (devices db))) \<and>
           int (length (filter (whereClause search status) (devices db))) \<le> k * l"
proof -
  let ?F = "filter (whereClause search status) (devices db)"
  let ?S = "order_by_last_seen_desc e ?F"
  obtain k where k: "math_ceil_div (length ?F) (Num l) = Some k"
    "k = \<lceil>real (length ?F) / real_of_int l\<rceil>"
    "(k - 1) * l < int (length ?F)" "int (length ?F) \<le> k * l"
    using math_ceil_div_pos[OF assms(6), of "length ?F"] by blast
  note resp = getAllDevices_safe[OF assms(1-10), of db]
  have perm: "mset ?S = mset ?F"
    using assms(11) by (simp add: order_by_last_seen_desc_mset)
  have devs: "returned_devices (getAllDevices e q db)
                = take (nat l) (drop (nat ((p - 1) * l)) ?S)"
    by (simp add: resp returned_devices_def ok_def o_def)
  have pg: "returned_pagination (getAllDevices e q db)
              = Some \<lparr>page = Num p, limit = Num l, total = length ?F, pages = Some k\<rparr>"
    by (simp add: resp returned_pagination_def ok_def k(1))
  have st: "http_status (getAllDevices e q db) = 200"
    by (simp add: resp ok_def)
  have len: "length (returned_devices (getAllDevices e q db)) \<le> nat l"
    by (simp add: devs)
  show ?thesis
    apply (rule exI[of _ ?S])
    apply (rule exI[of _ k])
    apply (intro conjI)
            apply (rule perm)
           apply (rule order_by_last_seen_desc_sorted)
          apply (rule st)
         apply (rule devs)
        apply (rule len)
       apply (rule pg)
      apply (rule k(2))
     apply (rule k(3))
    apply (rule k(4))
    done
qed

theorem getAllDevices_pagination_witness:
  "or_default 1 (q_page (all_devices 1 1 ''all'')) = 1 \<and>
   or_default 50 (q_limit (all_devices 1 1 ''all'')) = 1 \<and>
   (1::int) \<le> 1 \<and> (0::int) < 1 \<and> (1::int) < 2 ^ 53 \<and> ((1::int) - 1) * 1 < 2 ^ 53 \<and>
   (\<forall>k. \<not> fails (reversed 9) k) \<and>
   (\<forall>rows. mset (device_scan (reversed 9) rows) = mset rows) \<and>
   map device_id (returned_devices
     (getAllDevices (reversed 9) (all_devices 1 1 ''all'') (two_device_db SQLite))) = [''dev-2''] \<and>
   returned_pagination (getAllDevices (reversed 9) (all_devices 1 1 ''all'') (two_device_db SQLite))
     = Some \<lparr>page = Num 1, limit = Num 1, total = 2, pages = Some 2\<rparr>"
proof -
  let ?q = "all_devices 1 1 ''all''"
  let ?db = "two_device_db SQLite"
  have q: "or_default 1 (q_page ?q) = 1" "or_default 50 (q_limit ?q) = 1"
    "or_default [] (q_search ?q) = []" "or_default ''all'' (q_status ?q) = ''all''"
    by (simp_all add: all_devices_def or_default_def)
  have F: "filter (whereClause [] ''all'') (devices ?db) = devices ?db"
    by (simp add: whereClause_def)
  have len: "length (devices ?db) = 2"
    by (simp add: two_device_db_eval)
  have prem: "(1::int) \<le> 1" "(0::int) < 1" "(1::int) < 2 ^ 53" "(1::int) < 2 ^ 53"
    "((1::int) - 1) * 1 < 2 ^ 53"
    by simp_all
  have env: "\<forall>k. \<not> fails (reversed 9) k"
    "\<forall>rows. mset (device_scan (reversed 9) rows) = mset rows"
    by (simp_all add: reversed_def healthy_def)
  from getAllDevices_pagination[OF q prem env, where db = ?db, unfolded F]
  obtain sorted_rows k where
    mset: "mset sorted_rows = mset (devices ?db)" and
    sorted: "sorted_wrt (\<lambda>a b. last_seen b \<le> last_seen a) sorted_rows" and
    page: "returned_devices (getAllDevices (reversed 9) ?q ?db)
             = take (nat 1) (drop (nat ((1 - 1) * 1)) sorted_rows)" and
    pg: "returned_pagination (getAllDevices (reversed 9) ?q ?db)
           = Some \<lparr>page = Num 1, limit = Num 1, total = length (devices ?db), pages = Some k\<rparr>" and
    lo: "(k - 1) * 1 < int (length (devices ?db))" and
    hi: "int (length (devices ?db)) \<le> k * 1"
    by blast
  have k: "k = 2" using lo hi len by simp
  have rows: "sorted_rows = rev (devices ?db)"
  proof -
    obtain a b where ab: "sorted_rows = [a, b]"
      using mset len by (metis (no_types, lifting) length_0_conv length_Suc_conv numeral_2_eq_2 size_mset)
    then show ?thesis
      using mset sorted by (auto simp: two_device_db_eval add_eq_conv_ex)
  qed
  have "map device_id (returned_devices (getAllDevices (reversed 9) ?q ?db))
          = map device_id (take (nat 1) (drop (nat ((1 - 1) * 1)) (rev (devices ?db))))"
    unfolding page rows ..
  also have "\<dots> = [''dev-2'']"
    by (simp add: two_device_db_eval)
  finally show ?thesis
    using q pg k len env by simp
qed

theorem getAllDevices_large_limit_counterexample:
  "or_default 1 (q_page (all_devices 1 (2 ^ 63 - 1) ''all'')) = 1 \<and>
   or_default 50 (q_limit (all_devices 1 (2 ^ 63 - 1) ''all'')) = 2 ^ 63 - 1 \<and>
   (1::int) \<le> 1 \<and> (0::int) < 2 ^ 63 - 1 \<and>
   length (devices (two_device_db SQLite)) = 2 \<and>
   ToNumber (2 ^ 63 - 1) = Num (2 ^ 63) \<and>
   getAllDevices (healthy 9) (all_devices 1 (2 ^ 63 - 1) ''all'') (two_device_db SQLite) =
     \<lparr>http_status = 500, success = False, message = ''Internal server error'',
      error_code = None, data = NoData\<rparr> \<and>
   returned_devices
     (getAllDevices (healthy 9) (all_devices 1 (2 ^ 63 - 1) ''all'') (two_device_db SQLite)) = [] \<and>
   returned_pagination
     (getAllDevices (healthy 9) (all_devices 1 (2 ^ 63 - 1) ''all'') (two_device_db SQLite)) = None"
proof -
  have lim: "ToNumber (2 ^ 63 - 1) = Num (2 ^ 63)"
    unfolding ToNumber_def Let_def round_double_large by simp
  have bind: "bind_integer SQLite (Num (2 ^ 63)) = Inl DatatypeMismatch"
    by (simp add: bind_integer_def)
  have resp: "getAllDevices (healthy 9) (all_devices 1 (2 ^ 63 - 1) ''all'') (two_device_db SQLite)
                = internal_error None"
    unfolding getAllDevices_def Let_def await_healthy
    by (simp only: all_devices_def or_default_def devices_query.simps option.case lim
          sql_limit_offset_def bind two_device_db_eval database.simps sum.case)
  show ?thesis
    unfolding resp using lim
    by (simp add: all_devices_def or_default_def two_device_db_eval internal_error_def
        returned_devices_def returned_pagination_def)
qed


text \<open>
  Claim C9, as the code has it. Under one search filter, and with a page that holds the
  whole result, the devices returned for \<open>status = active\<close> are those devices returned for
  \<open>status = all\<close> whose stored \<open>is_active\<close> flag is set: a subset, equal to the whole exactly
  when no device passing the search is inactive. Every page of the \<open>active\<close> listing lies
  in that whole result too, and the \<open>active\<close> total is at most the \<open>all\<close> total. (The limit
  of the page that holds the whole result is a number below \<open>2 ^ 53\<close>.)
\<close>

theorem getAllDevices_active_subset:
  assumes "int (length (devices db)) \<le> l" and "0 < l" and "1 \<le> p" and "0 < l'"
    and "l < 2 ^ 53"
  shows "(let active = getAllDevices (healthy t)
                \<lparr>q_page = Some 1, q_limit = Some l, q_search = s, q_status = Some ''active''\<rparr> db;
              everything = getAllDevices (healthy t)
                \<lparr>q_page = Some 1, q_limit = Some l, q_search = s, q_status = Some ''all''\<rparr> db;
              active_page = getAllDevices (healthy t)
                \<lparr>q_page = Some p, q_limit = Some l', q_search = s, q_status = Some ''active''\<rparr> db
          in set (returned_devices active) \<subseteq> set (returned_devices everything) \<and>
             set (returned_devices active_page) \<subseteq> set (returned_devices everything) \<and>
             set (returned_devices active)
               = {r \<in> set (returned_devices everything). is_active r} \<and>
             (set (returned_devices active) = set (returned_devices everything)
                \<longleftrightarrow> list_all is_active (returned_devices everything)) \<and>
             (\<exists>n m. map_option total (returned_pagination active) = Some n \<and>
                    map_option total (returned_pagination everything) = Some m \<and> n \<le> m))"
proof -
  let ?s = "or_default [] s"
  let ?A = "filter (whereClause ?s ''active'') (devices db)"
  let ?E = "filter (whereClause ?s ''all'') (devices db)"
  have whole: "take (nat l) (drop (nat ((1 - 1) * l)) (order_by_last_seen_desc (healthy t) xs))
               = order_by_last_seen_desc (healthy t) xs"
    if "length xs \<le> length (devices db)" for xs
    using that assms(1) by simp
  have one: "(1::int) \<le> 1" "(1::int) < 2 ^ 53" by simp_all
  have zero: "((1::int) - 1) * l < 2 ^ 53" by simp
  note first_page = one(1) assms(2) one(2) assms(5) zero
  have act: "returned_devices (getAllDevices (healthy t)
               \<lparr>q_page = Some 1, q_limit = Some l, q_search = s, q_status = Some ''active''\<rparr> db)
             = order_by_last_seen_desc (healthy t) ?A"
    by (simp only: returned_devices_healthy[OF first_page] whole[OF length_filter_le])
  have evr: "returned_devices (getAllDevices (healthy t)
               \<lparr>q_page = Some 1, q_limit = Some l, q_search = s, q_status = Some ''all''\<rparr> db)
             = order_by_last_seen_desc (healthy t) ?E"
    by (simp only: returned_devices_healthy[OF first_page] whole[OF length_filter_le])
  have pg: "set (returned_devices (getAllDevices (healthy t)
               \<lparr>q_page = Some p, q_limit = Some l', q_search = s, q_status = Some ''active''\<rparr> db))
             \<subseteq> set ?A"
    using returned_devices_subset[of t
        "\<lparr>q_page = Some p, q_limit = Some l', q_search = s, q_status = Some ''active''\<rparr>" db]
    by (simp add: or_default_def)
  have AE: "set ?A = {r \<in> set ?E. is_active r}"
    by (auto simp: whereClause_active)
  have len: "length ?A \<le> length ?E"
  proof -
    have "?A = filter is_active ?E"
      by (simp add: conj_commute) (rule filter_cong, simp, simp add: whereClause_active conj_commute)
    then show ?thesis
      by (metis length_filter_le)
  qed
  show ?thesis
    unfolding Let_def act evr returned_total_healthy[OF first_page]
    using pg AE len
    by (auto simp: list_all_iff)
qed

theorem getAllDevices_active_subset_witness:
  "int (length (devices (two_device_db SQLite))) \<le> 50 \<and> (0::int) < 50 \<and> (1::int) \<le> 2 \<and> (0::int) < 1 \<and>
   (50::int) < 2 ^ 53 \<and>
   set (returned_devices (getAllDevices (healthy 9) (all_devices 1 50 ''active'') (two_device_db SQLite)))
     \<subseteq> set (returned_devices (getAllDevices (healthy 9) (all_devices 1 50 ''all'') (two_device_db SQLite))) \<and>
   set (returned_devices (getAllDevices (healthy 9) (all_devices 2 1 ''active'') (two_device_db SQLite)))
     \<subseteq> set (returned_devices (getAllDevices (healthy 9) (all_devices 1 50 ''all'') (two_device_db SQLite))) \<and>
   map device_id (returned_devices (getAllDevices (healthy 9) (all_devices 1 50 ''all'') (two_device_db SQLite)))
     = [''dev-2'', ''dev-1'']"
proof -
  have h: "int (length (devices (two_device_db SQLite))) \<le> 50" "(0::int) < 50" "(1::int) \<le> 2"
    "(0::int) < 1" "(50::int) < 2 ^ 53"
    by (simp_all add: two_device_db_eval)
  note inst = getAllDevices_active_subset[OF h, where t = 9 and s = None,
      unfolded Let_def, folded all_devices_def]
  have "map device_id (returned_devices (getAllDevices (healthy 9) (all_devices 1 50 ''all'') (two_device_db SQLite)))
     = [''dev-2'', ''dev-1'']"
    by (simp add: two_device_db_listing whereClause_def order_by_last_seen_desc_def)
       (simp add: two_device_db_eval)
  with inst h show ?thesis by blast
qed

theorem getAllDevices_strict_subset_counterexample:
  "returned_devices (getAllDevices (healthy 9) (all_devices 1 50 ''active'') (two_device_db SQLite))
     = returned_devices (getAllDevices (healthy 9) (all_devices 1 50 ''all'') (two_device_db SQLite)) \<and>
   length (returned_devices (getAllDevices (healthy 9) (all_devices 1 50 ''all'') (two_device_db SQLite))) = 2 \<and>
   \<not> set (returned_devices (getAllDevices (healthy 9) (all_devices 1 50 ''active'') (two_device_db SQLite)))
       \<subset> set (returned_devices (getAllDevices (healthy 9) (all_devices 1 50 ''all'') (two_device_db SQLite)))"
proof -
  have "filter (whereClause [] ''active'') (devices (two_device_db SQLite))
        = filter (whereClause [] ''all'') (devices (two_device_db SQLite))"
    by (simp add: whereClause_def two_device_db_eval)
  then have eq: "returned_devices (getAllDevices (healthy 9) (all_devices 1 50 ''active'') (two_device_db SQLite))
     = returned_devices (getAllDevices (healthy 9) (all_devices 1 50 ''all'') (two_device_db SQLite))"
    by (simp only: two_device_db_listing)
  have "length (returned_devices (getAllDevices (healthy 9) (all_devices 1 50 ''all'') (two_device_db SQLite))) = 2"
    by (simp add: two_device_db_listing whereClause_def order_by_last_seen_desc_def)
       (simp add: two_device_db_eval)
  with eq show ?thesis by simp
qed

section \<open>Runs of sync calls\<close>

lemma select_device_update_device_seen:
  "select_device (Some d) (update_device_seen t d' db) = None \<longleftrightarrow> select_device (Some d) db = None"
  by (simp add: update_device_seen_def select_device_update_devices)

lemma logs_of_update_device_seen [simp]:
  "logs_of d (update_device_seen t d' db) = logs_of d db"
  by (simp add: logs_of_def update_device_seen_def)

lemma last_seen_of_logs_irrelevant [simp]:
  "last_seen_of d (db\<lparr>device_logs := ls, device_logs_seq := n\<rparr>) = last_seen_of d db"
  by (simp add: last_seen_of_def)

lemma syncDeviceData_unknown:
  assumes "select_device (sync_device_id b) db = None"
  shows "snd (syncDeviceData e b db) = db \<and> http_status (fst (syncDeviceData e b db)) \<noteq> 200"
  using assms
  by (simp add: syncDeviceData_def await_def not_found_def validation_failed_def
      internal_error_def)

lemma syncDeviceData_ok_D:
  assumes "syncDeviceData e b db = (r, db1)" and "http_status r = 200"
  shows "\<not> fails e 0 \<and> \<not> fails e 1 \<and> \<not> fails e 2"
  using assms
  by (auto simp: syncDeviceData_def await_def validation_failed_def not_found_def
      internal_error_def split: if_splits sum.splits)

text \<open>What one sync call does to the logs and the \<open>last_seen\<close> of a registered device \<open>d\<close>.\<close>

lemma syncDeviceData_step:
  assumes "syncDeviceData e b db = (r, db1)"
    and "select_device (Some d) db \<noteq> None"
  shows "select_device (Some d) db1 \<noteq> None \<and>
         (if sync_device_id b = Some d \<and> http_status r = 200
          then length (logs_of d db1) = Suc (length (logs_of d db)) \<and>
               last_seen_of d db1 = Some (now e)
          else if sync_device_id b = Some d \<and> deviceSyncValidation b \<and>
                  \<not> fails e 0 \<and> \<not> fails e 1 \<and> fails e 2
          then length (logs_of d db1) = Suc (length (logs_of d db)) \<and>
               last_seen_of d db1 = last_seen_of d db
          else logs_of d db1 = logs_of d db \<and> last_seen_of d db1 = last_seen_of d db)"
proof (cases "deviceSyncValidation b")
  case False
  then have "r = validation_failed" "db1 = db"
    using assms(1) by (simp_all add: syncDeviceData_def)
  then show ?thesis
    using assms(2) False by (simp add: validation_failed_def)
next
  case True
  then obtain d2 ts where b: "sync_device_id b = Some d2" "sync_timestamp b = Some ts"
    using deviceSyncValidation_D by blast
  show ?thesis
  proof (cases "select_device (Some d2) db = None")
    case None: True
    then have "db1 = db" "http_status r \<noteq> 200"
      using assms(1) syncDeviceData_unknown[of b db e] b by simp_all
    moreover have "d2 \<noteq> d"
      using None assms(2) by auto
    ultimately show ?thesis
      using assms(2) by (simp add: b)
  next
    case False
    let ?logged = "db\<lparr>device_logs := device_logs db @ [new_log (now e) b d2 ts db],
                      device_logs_seq := Suc (device_logs_seq db)\<rparr>"
    note known = syncDeviceData_known[OF True b False, of e]
    consider (early) "fails e 0 \<or> fails e 1"
      | (late) "\<not> fails e 0" "\<not> fails e 1" "fails e 2"
      | (none) "\<not> fails e 0" "\<not> fails e 1" "\<not> fails e 2"
      by blast
    then show ?thesis
    proof cases
      case early
      then have "r = internal_error (Some ''SYNC_FAILED'')" "db1 = db"
        using assms(1) known by auto
      then show ?thesis
        using assms(2) early by (auto simp: internal_error_def)
    next
      case late
      then have res: "r = internal_error (Some ''SYNC_FAILED'')" "db1 = ?logged"
        using assms(1) known by simp_all
      have sel: "select_device (Some d) db1 \<noteq> None"
        using assms(2) by (simp add: res(2))
      have seen: "last_seen_of d db1 = last_seen_of d db"
        by (simp add: res(2))
      show ?thesis
      proof (cases "d2 = d")
        case same: True
        have "length (logs_of d db1) = Suc (length (logs_of d db))"
          by (simp add: res(2) same logs_of_def new_log_def)
        then show ?thesis
          using sel seen late True by (simp add: b same res(1) internal_error_def)
      next
        case other: False
        have "logs_of d db1 = logs_of d db"
          using other by (simp add: res(2) logs_of_def new_log_def)
        then show ?thesis
          using sel seen other by (simp add: b)
      qed
    next
      case none
      then have res: "r = ok ''Data synced successfully''
                            (SyncData (Some d2) (date_now e) ''completed'')"
        "db1 = update_device_seen (now e) (Some d2) ?logged"
        using assms(1) known by simp_all
      have sel: "select_device (Some d) db1 \<noteq> None"
        using assms(2) by (simp add: res(2) select_device_update_device_seen)
      show ?thesis
      proof (cases "d2 = d")
        case same: True
        have "last_seen_of d db1 = Some (now e)"
          unfolding res(2) same
          by (rule last_seen_of_update_device_seen) (use assms(2) in simp)
        moreover have "length (logs_of d db1) = Suc (length (logs_of d db))"
          by (simp add: res(2) same) (simp add: logs_of_def new_log_def)
        ultimately show ?thesis
          using sel by (simp add: b same res(1) ok_def)
      next
        case other: False
        have "last_seen_of d db1 = last_seen_of d db"
          unfolding res(2) using other by (simp add: last_seen_of_update_device_seen_other)
        moreover have "logs_of d db1 = logs_of d db"
          using other by (simp add: res(2)) (simp add: logs_of_def new_log_def)
        ultimately show ?thesis
          using sel other by (simp add: b)
      qed
    qed
  qed
qed

lemma successful_syncs_Cons:
  "successful_syncs d ((e, b) # calls) (r # rs) =
     (if sync_device_id b = Some d \<and> http_status r = 200 then [now e] else [])
     @ successful_syncs d calls rs"
  by (simp add: successful_syncs_def)

lemma torn_syncs_Cons:
  "torn_syncs d ((e, b) # calls) =
     (if sync_device_id b = Some d \<and> deviceSyncValidation b \<and>
         \<not> fails e 0 \<and> \<not> fails e 1 \<and> fails e 2 then [(e, b)] else [])
     @ torn_syncs d calls"
  by (simp add: torn_syncs_def)

lemma sync_all_counts:
  assumes "sync_all calls db = (rs, db')" and "select_device (Some d) db \<noteq> None"
  shows "select_device (Some d) db' \<noteq> None \<and>
         length (logs_of d db') =
           length (logs_of d db) + length (successful_syncs d calls rs)
             + length (torn_syncs d calls) \<and>
         last_seen_of d db' =
           (if successful_syncs d calls rs = [] then last_seen_of d db
            else Some (last (successful_syncs d calls rs)))"
  using assms
proof (induction calls arbitrary: db rs)
  case Nil
  then show ?case by (simp add: successful_syncs_def torn_syncs_def)
next
  case (Cons c calls)
  obtain e b where c: "c = (e, b)" by (cases c)
  obtain r db1 where step: "syncDeviceData e b db = (r, db1)"
    by (cases "syncDeviceData e b db")
  obtain rs1 where rest: "sync_all calls db1 = (rs1, db')" and rs: "rs = r # rs1"
    using Cons.prems(1) by (auto simp: c step split: prod.splits)
  note s = syncDeviceData_step[OF step Cons.prems(2)]
  note ih = Cons.IH[OF rest conjunct1[OF s]]
  have "http_status r = 200 \<Longrightarrow> \<not> fails e 2"
    using syncDeviceData_ok_D[OF step] by simp
  then show ?case
    using s ih unfolding c rs successful_syncs_Cons torn_syncs_Cons
    by (auto split: if_splits)
qed

lemma logs_of_unregistered:
  assumes "referential_integrity db" and "select_device (Some d) db = None"
  shows "logs_of d db = []"
  using assms
  by (auto simp: referential_integrity_def list_all_iff logs_of_def filter_empty_conv)

lemma example_calls_eval:
  "map http_status (fst (sync_all example_calls (pixel_db SQLite))) = [200, 404, 400, 200] \<and>
   map timestamp (device_logs (snd (sync_all example_calls (pixel_db SQLite)))) = [1000, 900] \<and>
   map last_seen (devices (snd (sync_all example_calls (pixel_db SQLite)))) = [10]"
  by (simp add: example_calls_def register_defs example_defs sync_defs)

lemma torn_calls_eval:
  "map http_status (fst (sync_all torn_calls (pixel_db SQLite))) = [200, 500] \<and>
   map timestamp (device_logs (snd (sync_all torn_calls (pixel_db SQLite)))) = [1000, 1001] \<and>
   map log_device_id (device_logs (snd (sync_all torn_calls (pixel_db SQLite))))
     = [''dev-1'', ''dev-1''] \<and>
   map last_seen (devices (snd (sync_all torn_calls (pixel_db SQLite)))) = [7]"
  by (simp add: torn_calls_def register_defs example_defs sync_defs)


text \<open>
  Claim C8, as the code has it. Take any run of sync calls, for any devices, with any
  bodies and whatever the storage engine does to each statement, on a store where device
  \<open>d\<close> is registered. Let \<open>N\<close> be the number of calls for \<open>d\<close> that were answered with 200,
  and \<open>M\<close> the number of valid calls for \<open>d\<close> whose \<open>INSERT\<close> was executed and whose
  \<open>UPDATE\<close> was rejected (they are answered with 500). The run adds exactly \<open>N + M\<close> log
  rows of \<open>d\<close>, that is \<open>N\<close> when no \<open>UPDATE\<close> was rejected; and when \<open>N > 0\<close> the
  \<open>last_seen\<close> of \<open>d\<close> is the time at which the server received the last of the \<open>N\<close> calls
  (the store's clock, not the \<open>timestamp\<close> field of the body). When the run starts right
  after the first registration of \<open>d\<close>, on a store whose logs all reference registered
  devices, the number of log rows of \<open>d\<close> is \<open>N + M\<close>.
\<close>

theorem sync_all_counts_and_last_seen:
  assumes "sync_all calls db = (rs, db')" and "select_device (Some d) db \<noteq> None"
  shows "length (logs_of d db') =
           length (logs_of d db) + length (successful_syncs d calls rs)
             + length (torn_syncs d calls) \<and>
         (torn_syncs d calls = [] \<longrightarrow>
            length (logs_of d db') =
              length (logs_of d db) + length (successful_syncs d calls rs)) \<and>
         (successful_syncs d calls rs \<noteq> [] \<longrightarrow>
            last_seen_of d db' = Some (last (successful_syncs d calls rs))) \<and>
         (\<forall>db0 b t0.
            referential_integrity db0 \<and> select_device (Some d) db0 = None \<and>
            deviceRegistrationValidation b \<and> reg_device_id b = Some d \<and>
            db = snd (registerDevice (healthy t0) b db0) \<longrightarrow>
              length (logs_of d db') =
                length (successful_syncs d calls rs) + length (torn_syncs d calls) \<and>
              last_seen_of d db' =
                Some (if successful_syncs d calls rs = [] then t0
                      else last (successful_syncs d calls rs)))"
proof -
  note main = sync_all_counts[OF assms]
  have count: "length (logs_of d db') =
                 length (logs_of d db) + length (successful_syncs d calls rs)
                   + length (torn_syncs d calls)"
    using main by simp
  have clean: "torn_syncs d calls = [] \<longrightarrow>
                 length (logs_of d db') =
                   length (logs_of d db) + length (successful_syncs d calls rs)"
    using main by simp
  have seen: "successful_syncs d calls rs \<noteq> [] \<longrightarrow>
                last_seen_of d db' = Some (last (successful_syncs d calls rs))"
    using main by simp
  have fresh: "length (logs_of d db') =
                 length (successful_syncs d calls rs) + length (torn_syncs d calls) \<and>
        last_seen_of d db' =
          Some (if successful_syncs d calls rs = [] then t0
                else last (successful_syncs d calls rs))"
    if fresh: "referential_integrity db0 \<and> select_device (Some d) db0 = None \<and>
            deviceRegistrationValidation b \<and> reg_device_id b = Some d \<and>
            db = snd (registerDevice (healthy t0) b db0)"
    for db0 b t0
  proof -
    have bound: "binds db0 b"
    proof (rule ccontr)
      assume "\<not> binds db0 b"
      then have "db = db0"
        using fresh registerDevice_unbound[of b db0 t0] by simp
      then show False
        using fresh assms(2) by simp
    qed
    have reg: "registerDevice (healthy t0) b db0 =
           ((ok ''Device registered successfully''
               (RegisterData (reg_device_id b) ''registered''))\<lparr>http_status := 201\<rparr>,
            db0\<lparr>devices := devices db0 @
                 [\<lparr>row_id = Suc (devices_seq db0), device_id = the (reg_device_id b),
                   model = the (reg_model b), manufacturer = the (reg_manufacturer b),
                   os_version = reg_os_version b, app_version = reg_app_version b,
                   first_seen = t0, last_seen = t0, is_active = True,
                   created_at = t0, updated_at = t0\<rparr>],
               devices_seq := Suc (devices_seq db0)\<rparr>)"
      using fresh bound registerDevice_new[of b db0 t0] by simp
    have logs0: "logs_of d db = []"
      using fresh logs_of_unregistered[of db0 d] by (simp add: reg logs_of_def)
    have seen0: "last_seen_of d db = Some t0"
      using fresh by (simp add: reg last_seen_of_def select_device_def find_snoc)
    show ?thesis
      using main logs0 seen0 by simp
  qed
  show ?thesis
    using count clean seen fresh by blast
qed

theorem sync_all_counts_and_last_seen_witness:
  "select_device (Some ''dev-1'') (pixel_db SQLite) \<noteq> None \<and>
   referential_integrity (empty_db SQLite) \<and>
   select_device (Some ''dev-1'') (empty_db SQLite) = None \<and>
   deviceRegistrationValidation pixel \<and> reg_device_id pixel = Some ''dev-1'' \<and>
   pixel_db SQLite = snd (registerDevice (healthy 5) pixel (empty_db SQLite)) \<and>
   map http_status (fst (sync_all example_calls (pixel_db SQLite))) = [200, 404, 400, 200] \<and>
   successful_syncs ''dev-1'' example_calls (fst (sync_all example_calls (pixel_db SQLite))) = [7, 10] \<and>
   torn_syncs ''dev-1'' example_calls = [] \<and>
   length (logs_of ''dev-1'' (snd (sync_all example_calls (pixel_db SQLite)))) = 2 \<and>
   last_seen_of ''dev-1'' (snd (sync_all example_calls (pixel_db SQLite))) = Some 10 \<and>
   map http_status (fst (sync_all torn_calls (pixel_db SQLite))) = [200, 500] \<and>
   successful_syncs ''dev-1'' torn_calls (fst (sync_all torn_calls (pixel_db SQLite))) = [7] \<and>
   length (torn_syncs ''dev-1'' torn_calls) = 1 \<and>
   length (logs_of ''dev-1'' (snd (sync_all torn_calls (pixel_db SQLite)))) = 2 \<and>
   last_seen_of ''dev-1'' (snd (sync_all torn_calls (pixel_db SQLite))) = Some 7"
proof -
  let ?rs = "fst (sync_all example_calls (pixel_db SQLite))"
  let ?db' = "snd (sync_all example_calls (pixel_db SQLite))"
  let ?rs2 = "fst (sync_all torn_calls (pixel_db SQLite))"
  let ?db2 = "snd (sync_all torn_calls (pixel_db SQLite))"
  have run: "sync_all example_calls (pixel_db SQLite) = (?rs, ?db')" by simp
  have run2: "sync_all torn_calls (pixel_db SQLite) = (?rs2, ?db2)" by simp
  have known: "select_device (Some ''dev-1'') (pixel_db SQLite) \<noteq> None"
    by (simp add: register_defs example_defs)
  have fresh: "referential_integrity (empty_db SQLite) \<and>
     select_device (Some ''dev-1'') (empty_db SQLite) = None \<and>
     deviceRegistrationValidation pixel \<and> reg_device_id pixel = Some ''dev-1'' \<and>
     pixel_db SQLite = snd (registerDevice (healthy 5) pixel (empty_db SQLite))"
    by (simp add: referential_integrity_def register_defs example_defs)
  have statuses: "map http_status ?rs = [200, 404, 400, 200]"
    using example_calls_eval by simp
  then obtain r1 r2 r3 r4 where rs: "?rs = [r1, r2, r3, r4]"
    "http_status r1 = 200" "http_status r2 = 404" "http_status r3 = 400" "http_status r4 = 200"
    by (auto simp: map_eq_Cons_conv)
  have succ: "successful_syncs ''dev-1'' example_calls ?rs = [7, 10]"
    unfolding rs(1) by (simp add: successful_syncs_def example_calls_def sync_of_def rs)
  have torn: "torn_syncs ''dev-1'' example_calls = []"
    by (simp add: torn_syncs_def example_calls_def)
  have statuses2: "map http_status ?rs2 = [200, 500]"
    using torn_calls_eval by simp
  then obtain q1 q2 where rs2: "?rs2 = [q1, q2]" "http_status q1 = 200" "http_status q2 = 500"
    by (auto simp: map_eq_Cons_conv)
  have succ2: "successful_syncs ''dev-1'' torn_calls ?rs2 = [7]"
    unfolding rs2(1) by (simp add: successful_syncs_def torn_calls_def sync_of_def rs2)
  have torn2: "length (torn_syncs ''dev-1'' torn_calls) = 1"
    by (simp add: torn_syncs_def torn_calls_def third_fails_def sync_of_def
        deviceSyncValidation_def optional_in_def notEmpty_def)
  from sync_all_counts_and_last_seen[OF run known]
  have "length (logs_of ''dev-1'' ?db') =
          length (successful_syncs ''dev-1'' example_calls ?rs)
            + length (torn_syncs ''dev-1'' example_calls) \<and>
        last_seen_of ''dev-1'' ?db' =
          Some (if successful_syncs ''dev-1'' example_calls ?rs = [] then 5
                else last (successful_syncs ''dev-1'' example_calls ?rs))"
    using fresh by blast
  then have first: "length (logs_of ''dev-1'' ?db') = 2 \<and> last_seen_of ''dev-1'' ?db' = Some 10"
    unfolding succ torn by simp
  from sync_all_counts_and_last_seen[OF run2 known]
  have "length (logs_of ''dev-1'' ?db2) =
          length (successful_syncs ''dev-1'' torn_calls ?rs2)
            + length (torn_syncs ''dev-1'' torn_calls) \<and>
        last_seen_of ''dev-1'' ?db2 =
          Some (if successful_syncs ''dev-1'' torn_calls ?rs2 = [] then 5
                else last (successful_syncs ''dev-1'' torn_calls ?rs2))"
    using fresh by blast
  then have second: "length (logs_of ''dev-1'' ?db2) = 2 \<and> last_seen_of ''dev-1'' ?db2 = Some 7"
    unfolding succ2 torn2 by simp
  show ?thesis
    using known fresh statuses succ torn first statuses2 succ2 torn2 second by simp
qed

theorem sync_all_torn_counterexample:
  "select_device (Some ''dev-1'') (pixel_db SQLite) \<noteq> None \<and>
   length (logs_of ''dev-1'' (pixel_db SQLite)) = 0 \<and>
   map http_status (fst (sync_all torn_calls (pixel_db SQLite))) = [200, 500] \<and>
   length (successful_syncs ''dev-1'' torn_calls (fst (sync_all torn_calls (pixel_db SQLite)))) = 1 \<and>
   length (logs_of ''dev-1'' (snd (sync_all torn_calls (pixel_db SQLite)))) = 2 \<and>
   length (logs_of ''dev-1'' (snd (sync_all torn_calls (pixel_db SQLite))))
     \<noteq> length (successful_syncs ''dev-1'' torn_calls (fst (sync_all torn_calls (pixel_db SQLite))))"
proof -
  let ?rs2 = "fst (sync_all torn_calls (pixel_db SQLite))"
  have known: "select_device (Some ''dev-1'') (pixel_db SQLite) \<noteq> None"
    "length (logs_of ''dev-1'' (pixel_db SQLite)) = 0"
    by (simp_all add: register_defs example_defs logs_of_def)
  have statuses2: "map http_status ?rs2 = [200, 500]"
    using torn_calls_eval by simp
  then obtain q1 q2 where rs2: "?rs2 = [q1, q2]" "http_status q1 = 200" "http_status q2 = 500"
    by (auto simp: map_eq_Cons_conv)
  have succ2: "successful_syncs ''dev-1'' torn_calls ?rs2 = [7]"
    unfolding rs2(1) by (simp add: successful_syncs_def torn_calls_def sync_of_def rs2)
  have "map log_device_id (device_logs (snd (sync_all torn_calls (pixel_db SQLite))))
          = [''dev-1'', ''dev-1'']"
    using torn_calls_eval by simp
  then have logs: "length (logs_of ''dev-1'' (snd (sync_all torn_calls (pixel_db SQLite)))) = 2"
    by (auto simp: logs_of_def map_eq_Cons_conv)
  show ?thesis
    using known statuses2 logs unfolding succ2 by simp
qed

section \<open>Two registrations of one new device in flight\<close>

lemma interleaving_cases:
  assumes "interleaving sched"
  shows "sched \<in> {[False, False, True, True], [True, True, False, False],
                  [False, True, False, True], [True, False, False, True],
                  [False, True, True, False], [True, False, True, False]}"
proof -
  have "length sched = 4"
    using assms sum_length_filter_compl[of "\<lambda>x. x" sched] by (simp add: interleaving_def)
  then obtain a b c d where "sched = [a, b, c, d]"
    by (auto simp: length_Suc_conv numeral_eq_Suc)
  then show ?thesis
    using assms by (cases a; cases b; cases c; cases d; simp add: interleaving_def)
qed

lemma registerDevice_as_steps:
  "(case reg_step (Pending e b) db of (a, db1) \<Rightarrow> reg_step a db1) =
     (case registerDevice e b db of (r, db') \<Rightarrow> (Answered r, db'))"
  by (simp add: registerDevice_def split: sum.splits prod.splits)

lemma reg_step_lookup:
  assumes "deviceRegistrationValidation b"
  shows "reg_step (Pending (healthy t) b) db =
           (Looked (healthy t) b (select_device (reg_device_id b) db), db)"
  using assms by (simp add: register_lookup_def)

lemma reg_step_write_None:
  assumes "deviceRegistrationValidation b"
  shows "reg_step (Looked (healthy t) b None) db =
           (if select_device (reg_device_id b) db = None
            then (Answered (fst (registerDevice (healthy t) b db)),
                  snd (registerDevice (healthy t) b db))
            else (Answered rejected, db))"
  using assms
  by (auto simp: register_write_def registerDevice_def register_lookup_def insert_device_def
        rejected_def deviceRegistrationValidation_def dest!: notEmpty_SomeD)

lemma dbType_registerDevice [simp]: "dbType (snd (registerDevice e b db)) = dbType db"
  by (auto simp: registerDevice_def register_lookup_def register_write_def insert_device_def
      update_device_registration_def update_devices_def await_def
      split: sum.splits option.splits if_splits)

lemma binds_registerDevice [simp]: "binds (snd (registerDevice e b' db)) b = binds db b"
  by (simp add: binds_def)

lemma reg_step_write_Some:
  assumes "deviceRegistrationValidation b" and "select_device (reg_device_id b) db = Some r"
  shows "reg_step (Looked (healthy t) b (Some r)) db =
           (Answered (fst (registerDevice (healthy t) b db)),
            snd (registerDevice (healthy t) b db))"
  using assms
  by (simp add: register_write_def registerDevice_def register_lookup_def split_beta)

lemma rows_of_update_devices_length:
  assumes "\<And>r. device_id (f r) = device_id r"
  shows "length (rows_of d (update_devices t f d' db)) = length (rows_of d db)"
proof -
  have "length (filter (\<lambda>r. device_id r = d) (map g xs)) = length (filter (\<lambda>r. device_id r = d) xs)"
    if "\<And>r. device_id (g r) = device_id r" for g :: "device \<Rightarrow> device" and xs
    using that by (induction xs) simp_all
  then show ?thesis
    using assms by (simp add: rows_of_def update_devices_def)
qed

lemma first_registration_outcome:
  assumes "deviceRegistrationValidation b" and "reg_device_id b = Some d"
    and "select_device (Some d) db = None" and "binds db b"
  shows "is_registered (Answered (fst (registerDevice (healthy t) b db)))"
    and "\<not> is_updated (Answered (fst (registerDevice (healthy t) b db)))"
    and "\<not> is_rejected (Answered (fst (registerDevice (healthy t) b db)))"
    and "select_device (Some d) (snd (registerDevice (healthy t) b db)) \<noteq> None"
    and "length (rows_of d (snd (registerDevice (healthy t) b db))) = 1"
proof -
  note reg = registerDevice_new[OF assms(1), of db t, unfolded assms(2), OF assms(3,4)]
  show "is_registered (Answered (fst (registerDevice (healthy t) b db)))"
    by (simp add: reg is_registered_def ok_def)
  show "\<not> is_updated (Answered (fst (registerDevice (healthy t) b db)))"
    by (simp add: reg is_updated_def ok_def)
  show "\<not> is_rejected (Answered (fst (registerDevice (healthy t) b db)))"
    by (simp add: reg is_rejected_def rejected_def ok_def internal_error_def)
  show "select_device (Some d) (snd (registerDevice (healthy t) b db)) \<noteq> None"
    using assms(3) by (simp add: reg select_device_def find_snoc)
  have "\<forall>r\<in>set (devices db). device_id r \<noteq> d"
    using assms(3) by (auto simp: select_device_None_iff)
  then show "length (rows_of d (snd (registerDevice (healthy t) b db))) = 1"
    by (simp add: reg rows_of_def filter_empty_conv)
qed

lemma repeated_registration_outcome:
  assumes "deviceRegistrationValidation b" and "reg_device_id b = Some d"
    and "select_device (Some d) db \<noteq> None" and "binds db b"
  shows "is_updated (Answered (fst (registerDevice (healthy t) b db)))"
    and "\<not> is_registered (Answered (fst (registerDevice (healthy t) b db)))"
    and "\<not> is_rejected (Answered (fst (registerDevice (healthy t) b db)))"
    and "length (rows_of d (snd (registerDevice (healthy t) b db))) = length (rows_of d db)"
proof -
  note reg = registerDevice_existing[OF assms(1), of db t, unfolded assms(2), OF assms(3,4)]
  show "is_updated (Answered (fst (registerDevice (healthy t) b db)))"
    by (simp add: reg is_updated_def ok_def)
  show "\<not> is_registered (Answered (fst (registerDevice (healthy t) b db)))"
    by (simp add: reg is_registered_def ok_def)
  show "\<not> is_rejected (Answered (fst (registerDevice (healthy t) b db)))"
    by (simp add: reg is_rejected_def rejected_def ok_def internal_error_def)
  show "length (rows_of d (snd (registerDevice (healthy t) b db))) = length (rows_of d db)"
    by (simp add: reg rows_of_update_devices_length)
qed

lemma rejected_outcome:
  "is_rejected (Answered rejected)" "\<not> is_registered (Answered rejected)"
  "\<not> is_updated (Answered rejected)"
  by (simp_all add: rejected_def is_rejected_def is_registered_def is_updated_def
        internal_error_def)

lemma run_one_after_the_other:
  assumes "deviceRegistrationValidation b1" and "deviceRegistrationValidation b2"
    and "reg_device_id b1 = Some d" and "reg_device_id b2 = Some d"
    and "select_device (Some d) db = None" and "binds db b1" and "binds db b2"
  shows "run_schedule [False, False, True, True]
           (Pending (healthy t1) b1) (Pending (healthy t2) b2) db =
         (Answered (fst (registerDevice (healthy t1) b1 db)),
          Answered (fst (registerDevice (healthy t2) b2 (snd (registerDevice (healthy t1) b1 db)))),
          snd (registerDevice (healthy t2) b2 (snd (registerDevice (healthy t1) b1 db))))"
    and "run_schedule [True, True, False, False]
           (Pending (healthy t1) b1) (Pending (healthy t2) b2) db =
         (Answered (fst (registerDevice (healthy t1) b1 (snd (registerDevice (healthy t2) b2 db)))),
          Answered (fst (registerDevice (healthy t2) b2 db)),
          snd (registerDevice (healthy t1) b1 (snd (registerDevice (healthy t2) b2 db))))"
proof -
  obtain r1 where r1: "select_device (Some d) (snd (registerDevice (healthy t1) b1 db)) = Some r1"
    using first_registration_outcome(4)[OF assms(1,3,5,6), of t1] by auto
  obtain r2 where r2: "select_device (Some d) (snd (registerDevice (healthy t2) b2 db)) = Some r2"
    using first_registration_outcome(4)[OF assms(2,4,5,7), of t2] by auto
  show "run_schedule [False, False, True, True]
           (Pending (healthy t1) b1) (Pending (healthy t2) b2) db =
         (Answered (fst (registerDevice (healthy t1) b1 db)),
          Answered (fst (registerDevice (healthy t2) b2 (snd (registerDevice (healthy t1) b1 db)))),
          snd (registerDevice (healthy t2) b2 (snd (registerDevice (healthy t1) b1 db))))"
    using assms r1
    by (simp add: reg_step_lookup reg_step_write_None reg_step_write_Some del: reg_step.simps)
  show "run_schedule [True, True, False, False]
           (Pending (healthy t1) b1) (Pending (healthy t2) b2) db =
         (Answered (fst (registerDevice (healthy t1) b1 (snd (registerDevice (healthy t2) b2 db)))),
          Answered (fst (registerDevice (healthy t2) b2 db)),
          snd (registerDevice (healthy t1) b1 (snd (registerDevice (healthy t2) b2 db))))"
    using assms r2
    by (simp add: reg_step_lookup reg_step_write_None reg_step_write_Some del: reg_step.simps)
qed

lemma run_overlapping:
  assumes "deviceRegistrationValidation b1" and "deviceRegistrationValidation b2"
    and "reg_device_id b1 = Some d" and "reg_device_id b2 = Some d"
    and "select_device (Some d) db = None" and "binds db b1" and "binds db b2"
  shows "sched \<in> {[False, True, False, True], [True, False, False, True]} \<Longrightarrow>
         run_schedule sched (Pending (healthy t1) b1) (Pending (healthy t2) b2) db =
         (Answered (fst (registerDevice (healthy t1) b1 db)), Answered rejected,
          snd (registerDevice (healthy t1) b1 db))"
    and "sched \<in> {[False, True, True, False], [True, False, True, False]} \<Longrightarrow>
         run_schedule sched (Pending (healthy t1) b1) (Pending (healthy t2) b2) db =
         (Answered rejected, Answered (fst (registerDevice (healthy t2) b2 db)),
          snd (registerDevice (healthy t2) b2 db))"
proof -
  note k1 = first_registration_outcome(4)[OF assms(1,3,5,6), of t1]
  note k2 = first_registration_outcome(4)[OF assms(2,4,5,7), of t2]
  show "sched \<in> {[False, True, False, True], [True, False, False, True]} \<Longrightarrow>
         run_schedule sched (Pending (healthy t1) b1) (Pending (healthy t2) b2) db =
         (Answered (fst (registerDevice (healthy t1) b1 db)), Answered rejected,
          snd (registerDevice (healthy t1) b1 db))"
    using assms k1
    by (auto simp: reg_step_lookup reg_step_write_None simp del: reg_step.simps)
  show "sched \<in> {[False, True, True, False], [True, False, True, False]} \<Longrightarrow>
         run_schedule sched (Pending (healthy t1) b1) (Pending (healthy t2) b2) db =
         (Answered rejected, Answered (fst (registerDevice (healthy t2) b2 db)),
          snd (registerDevice (healthy t2) b2 db))"
    using assms k2
    by (auto simp: reg_step_lookup reg_step_write_None simp del: reg_step.simps)
qed

lemma overlapping_example:
  "run_schedule [False, True, False, True]
     (Pending (healthy 5) pixel) (Pending (healthy 6) pixel_bare) (empty_db SQLite) =
   (Answered \<lparr>http_status = 201, success = True, message = ''Device registered successfully'',
              error_code = None, data = RegisterData (Some ''dev-1'') ''registered''\<rparr>,
    Answered \<lparr>http_status = 500, success = False, message = ''Internal server error'',
              error_code = Some ''REGISTRATION_FAILED'', data = NoData\<rparr>,
    pixel_db SQLite)"
  by (simp add: register_defs example_defs)


text \<open>
  Claim C5, as the code has it, for registrations whose parameters the driver binds
  (\<open>binds\<close>). Two valid first registrations of one new \<open>device_id\<close>,
  interleaved in any way at the awaited statements, leave exactly one row of that
  \<open>device_id\<close>, and exactly one of the two callers is answered 201 \<open>registered\<close>. The other
  caller is answered 200 \<open>updated\<close> when its lookup ran after the winner's \<open>INSERT\<close>, that
  is when the two requests did not overlap; when both lookups ran before the first
  \<open>INSERT\<close>, the loser's \<open>INSERT\<close> is rejected by the \<open>UNIQUE\<close> constraint and it is
  answered 500 with \<open>REGISTRATION_FAILED\<close>: there is no retry.
\<close>

theorem concurrent_first_registrations:
  assumes "deviceRegistrationValidation b1" and "deviceRegistrationValidation b2"
    and "reg_device_id b1 = Some d" and "reg_device_id b2 = Some d"
    and "select_device (Some d) db = None" and "interleaving sched"
    and "binds db b1" and "binds db b2"
  shows "case run_schedule sched (Pending (healthy t1) b1) (Pending (healthy t2) b2) db of
           (a1, a2, db') \<Rightarrow>
             length (rows_of d db') = 1 \<and>
             (is_registered a1 \<and> \<not> is_registered a2 \<and> (is_updated a2 \<or> is_rejected a2) \<or>
              is_registered a2 \<and> \<not> is_registered a1 \<and> (is_updated a1 \<or> is_rejected a1)) \<and>
             (is_rejected a1 \<or> is_rejected a2 \<longleftrightarrow>
                sched \<noteq> [False, False, True, True] \<and> sched \<noteq> [True, True, False, False])"
proof -
  note f1 = first_registration_outcome[OF assms(1,3,5,7), of t1]
  note f2 = first_registration_outcome[OF assms(2,4,5,8), of t2]
  have b2: "binds (snd (registerDevice (healthy t1) b1 db)) b2"
    and b1: "binds (snd (registerDevice (healthy t2) b2 db)) b1"
    using assms(7,8) by simp_all
  note u2 = repeated_registration_outcome[OF assms(2,4) f1(4) b2, of t2]
  note u1 = repeated_registration_outcome[OF assms(1,3) f2(4) b1, of t1]
  note seq = run_one_after_the_other[OF assms(1-5,7,8), of t1 t2]
  note race = run_overlapping[OF assms(1-5,7,8), of _ t1 t2]
  consider (first_then_second) "sched = [False, False, True, True]"
    | (second_then_first) "sched = [True, True, False, False]"
    | (first_wins) "sched \<in> {[False, True, False, True], [True, False, False, True]}"
    | (second_wins) "sched \<in> {[False, True, True, False], [True, False, True, False]}"
    using interleaving_cases[OF assms(6)] by blast
  then show ?thesis
  proof cases
    case first_then_second
    show ?thesis
      unfolding first_then_second seq(1) prod.case
      using f1 u2 by simp
  next
    case second_then_first
    show ?thesis
      unfolding second_then_first seq(2) prod.case
      using f2 u1 by simp
  next
    case first_wins
    have "sched \<noteq> [False, False, True, True] \<and> sched \<noteq> [True, True, False, False]"
      using first_wins by auto
    then show ?thesis
      unfolding race(1)[OF first_wins] prod.case
      using f1 rejected_outcome by simp
  next
    case second_wins
    have "sched \<noteq> [False, False, True, True] \<and> sched \<noteq> [True, True, False, False]"
      using second_wins by auto
    then show ?thesis
      unfolding race(2)[OF second_wins] prod.case
      using f2 rejected_outcome by simp
  qed
qed

theorem concurrent_first_registrations_witness:
  "deviceRegistrationValidation pixel \<and> deviceRegistrationValidation pixel_bare \<and>
   reg_device_id pixel = Some ''dev-1'' \<and> reg_device_id pixel_bare = Some ''dev-1'' \<and>
   select_device (Some ''dev-1'') (empty_db SQLite) = None \<and>
   interleaving [False, True, False, True] \<and>
   binds (empty_db SQLite) pixel \<and> binds (empty_db SQLite) pixel_bare \<and>
   (case run_schedule [False, True, False, True]
           (Pending (healthy 5) pixel) (Pending (healthy 6) pixel_bare) (empty_db SQLite) of
      (a1, a2, db') \<Rightarrow>
        length (rows_of ''dev-1'' db') = 1 \<and> is_registered a1 \<and> is_rejected a2 \<and>
        \<not> is_updated a2)"
proof -
  have h: "deviceRegistrationValidation pixel" "deviceRegistrationValidation pixel_bare"
    "reg_device_id pixel = Some ''dev-1''" "reg_device_id pixel_bare = Some ''dev-1''"
    "select_device (Some ''dev-1'') (empty_db SQLite) = None"
    "interleaving [False, True, False, True]"
    "binds (empty_db SQLite) pixel" "binds (empty_db SQLite) pixel_bare"
    by (simp_all add: register_defs example_defs interleaving_def)
  have out: "is_registered (Answered \<lparr>http_status = 201, success = True,
                 message = ''Device registered successfully'',
                 error_code = None, data = RegisterData (Some ''dev-1'') ''registered''\<rparr>)"
    "is_rejected (Answered \<lparr>http_status = 500, success = False,
                 message = ''Internal server error'',
                 error_code = Some ''REGISTRATION_FAILED'', data = NoData\<rparr>)"
    "\<not> is_updated (Answered \<lparr>http_status = 500, success = False,
                 message = ''Internal server error'',
                 error_code = Some ''REGISTRATION_FAILED'', data = NoData\<rparr>)"
    by (simp_all add: is_registered_def is_rejected_def is_updated_def rejected_def
          internal_error_def)
  from concurrent_first_registrations[OF h, of 5 6]
  have "length (rows_of ''dev-1'' (pixel_db SQLite)) = 1"
    unfolding overlapping_example prod.case by blast
  with h out show ?thesis
    unfolding overlapping_example prod.case by blast
qed

theorem concurrent_registration_retry_counterexample:
  "deviceRegistrationValidation pixel \<and> deviceRegistrationValidation pixel_bare \<and>
   select_device (Some ''dev-1'') (empty_db SQLite) = None \<and>
   interleaving [False, True, False, True] \<and>
   run_schedule [False, True, False, True]
     (Pending (healthy 5) pixel) (Pending (healthy 6) pixel_bare) (empty_db SQLite) =
   (Answered \<lparr>http_status = 201, success = True, message = ''Device registered successfully'',
              error_code = None, data = RegisterData (Some ''dev-1'') ''registered''\<rparr>,
    Answered \<lparr>http_status = 500, success = False, message = ''Internal server error'',
              error_code = Some ''REGISTRATION_FAILED'', data = NoData\<rparr>,
    pixel_db SQLite) \<and>
   map os_version (devices (pixel_db SQLite)) = [Some ''Android 13''] \<and>
   map last_seen (devices (pixel_db SQLite)) = [5]"
  by (simp add: register_defs example_defs interleaving_def)
end
